theory Spec2Isabelle
  imports Complex_Main "HOL-Library.Word"
begin

section \<open>Images and the OpenCV operations the detector calls\<close>

text \<open>
  A frame is a numpy array of shape (rows, columns, 3) with \<open>uint8\<close> channels; it is
  modelled as a list of rows of pixels (in an array all rows have one length; no
  definition below depends on it). A mask is a single-channel \<open>uint8\<close> image.
  The detector never does arithmetic on a channel value (it is only compared, and
  minimised or maximised over a neighbourhood), so no wrap-around occurs.
\<close>

type_synonym pixel = "8 word \<times> 8 word \<times> 8 word"
type_synonym frame = "pixel list list"
type_synonym mask = "8 word list list"
type_synonym bound = "nat \<times> nat \<times> nat"
type_synonym rect = "int \<times> int \<times> int \<times> int"

datatype py_error = AttributeError | CvError | UndefinedValueError | ValueError

text \<open>
  The OpenCV routines whose result depends on library internals are parameters of the
  model: the per-pixel colour conversion of \<open>cv2.cvtColor(_, COLOR_BGR2HSV)\<close>, the
  contour extraction \<open>cv2.findContours(_, RETR_EXTERNAL, CHAIN_APPROX_SIMPLE)\<close> (whose
  order of discovery is implementation-defined) and \<open>cv2.boundingRect\<close>, which gives
  \<open>(x, y, w, h)\<close> for a contour. All three are functions of their argument: the
  library returns fresh arrays and leaves its input as it was.
\<close>

record 'c opencv =
  bgr2hsv :: "pixel \<Rightarrow> pixel"
  findContours :: "mask \<Rightarrow> 'c list"
  boundingRect :: "'c \<Rightarrow> rect"

definition frame_empty :: "'a list list \<Rightarrow> bool" where
  "frame_empty f = (case f of [] \<Rightarrow> True | r # _ \<Rightarrow> r = [])"

text \<open>\<open>cv2.cvtColor\<close> rejects an empty array and converts pixel by pixel otherwise.\<close>

definition cvtColor :: "'c opencv \<Rightarrow> frame \<Rightarrow> py_error + frame" where
  "cvtColor cv f = (if frame_empty f then Inl CvError else Inr (map (map (bgr2hsv cv)) f))"

definition in_band :: "pixel \<Rightarrow> bound \<Rightarrow> bound \<Rightarrow> bool" where
  "in_band p lo hi =
     (case p of (h, s, v) \<Rightarrow> (case lo of (lh, ls, lv) \<Rightarrow> (case hi of (uh, us, uv) \<Rightarrow>
        lh \<le> unat h \<and> unat h \<le> uh \<and> ls \<le> unat s \<and> unat s \<le> us \<and>
        lv \<le> unat v \<and> unat v \<le> uv)))"

text \<open>\<open>cv2.inRange\<close>: 255 where every channel lies between the bounds, ends included.\<close>

definition inRange :: "frame \<Rightarrow> bound \<Rightarrow> bound \<Rightarrow> mask" where
  "inRange hsv lo hi = map (map (\<lambda>p. if in_band p lo hi then 255 else 0)) hsv"

text \<open>
  \<open>cv2.erode(m, None, iterations=1)\<close> and \<open>cv2.dilate(m, None, iterations=1)\<close>: the
  default 3 x 3 rectangular element anchored at its centre; positions outside the
  image do not take part (the default border value), which for \<open>uint8\<close> is the same
  as starting the minimum at 255 and the maximum at 0.
\<close>

definition nbrs :: "nat \<Rightarrow> nat \<Rightarrow> nat list" where
  "nbrs n k = filter (\<lambda>i. i < n) ((if k = 0 then [] else [k - 1]) @ [k, k + 1])"

definition window :: "mask \<Rightarrow> nat \<Rightarrow> nat \<Rightarrow> 8 word list" where
  "window m i j =
     concat (map (\<lambda>i'. map (\<lambda>j'. m ! i' ! j') (nbrs (length (m ! i')) j)) (nbrs (length m) i))"

definition erode :: "mask \<Rightarrow> mask" where
  "erode m =
     map (\<lambda>i. map (\<lambda>j. foldr min (window m i j) 255) [0..<length (m ! i)]) [0..<length m]"

definition dilate :: "mask \<Rightarrow> mask" where
  "dilate m =
     map (\<lambda>i. map (\<lambda>j. foldr max (window m i j) 0) [0..<length (m ! i)]) [0..<length m]"

section \<open>The detector (clicker/color_detector.py)\<close>

text \<open>
  The attributes of a \<open>Detection\<close> object. The three masks do not exist until
  \<open>set_masks\<close> has run: reading one before that raises \<open>AttributeError\<close>.
\<close>

record detection =
  start_x :: int
  start_y :: int
  height :: int
  width :: int
  lower_pink :: bound
  upper_pink :: bound
  lower_green :: bound
  upper_green :: bound
  lower_bomb :: bound
  upper_bomb :: bound
  mask_pink :: "mask option"
  mask_green :: "mask option"
  mask_bomb :: "mask option"

definition init :: "int \<Rightarrow> int \<Rightarrow> int \<Rightarrow> int \<Rightarrow> detection" where
  "init sx sy h w =
     \<lparr>start_x = sx, start_y = sy, height = h, width = w,
      lower_pink = (160, 20, 100), upper_pink = (180, 255, 255),
      lower_green = (40, 50, 50), upper_green = (80, 255, 255),
      lower_bomb = (0, 0, 50), upper_bomb = (180, 50, 200),
      mask_pink = None, mask_green = None, mask_bomb = None\<rparr>"

text \<open>
  A log of the library calls, kept beside the object: every call the two methods
  below make goes through one of the four \<open>call_\<close> functions, which runs the library
  routine and appends the call, with the arrays and bounds it was given, to the log.
  The log is not in the source (both methods return \<open>None\<close>); it records which
  routines ran, in which order and on what.
\<close>

datatype cv_call =
  CvtColor frame
| InRange frame bound bound
| Erode mask
| Dilate mask

definition call_cvtColor :: "'c opencv \<Rightarrow> frame \<Rightarrow> cv_call list \<Rightarrow> py_error + frame \<times> cv_call list" where
  "call_cvtColor cv f calls =
     (case cvtColor cv f of Inl e \<Rightarrow> Inl e | Inr hsv \<Rightarrow> Inr (hsv, calls @ [CvtColor f]))"

definition call_inRange :: "frame \<Rightarrow> bound \<Rightarrow> bound \<Rightarrow> cv_call list \<Rightarrow> mask \<times> cv_call list" where
  "call_inRange hsv lo hi calls = (inRange hsv lo hi, calls @ [InRange hsv lo hi])"

definition call_erode :: "mask \<Rightarrow> cv_call list \<Rightarrow> mask \<times> cv_call list" where
  "call_erode m calls = (erode m, calls @ [Erode m])"

definition call_dilate :: "mask \<Rightarrow> cv_call list \<Rightarrow> mask \<times> cv_call list" where
  "call_dilate m calls = (dilate m, calls @ [Dilate m])"

text \<open>\<open>modify_masks\<close>, given the log so far.\<close>

definition modify_masks :: "detection \<Rightarrow> cv_call list \<Rightarrow> py_error + detection \<times> cv_call list" where
  "modify_masks d calls =
     (case mask_pink d of None \<Rightarrow> Inl AttributeError | Some mp \<Rightarrow>
       (case call_erode mp calls of (mask_pink', calls1) \<Rightarrow>
       (case call_dilate mask_pink' calls1 of (pink, calls2) \<Rightarrow>
        (let d1 = d\<lparr>mask_pink := Some pink\<rparr>
         in (case mask_green d1 of None \<Rightarrow> Inl AttributeError | Some mg \<Rightarrow>
           (case call_erode mg calls2 of (mask_green', calls3) \<Rightarrow>
           (case call_dilate mask_green' calls3 of (green, calls4) \<Rightarrow>
            (let d2 = d1\<lparr>mask_green := Some green\<rparr>
             in (case mask_bomb d2 of None \<Rightarrow> Inl AttributeError | Some mb \<Rightarrow>
               (case call_erode mb calls4 of (mask_bomb', calls5) \<Rightarrow>
               (case call_dilate mask_bomb' calls5 of (bomb, calls6) \<Rightarrow>
                (let d3 = d2\<lparr>mask_bomb := Some bomb\<rparr>
                 in Inr (d3, calls6)))))))))))))"

text \<open>\<open>set_masks\<close>, from the empty log.\<close>

definition set_masks :: "'c opencv \<Rightarrow> detection \<Rightarrow> frame \<Rightarrow> py_error + detection \<times> cv_call list" where
  "set_masks cv d f =
     (case call_cvtColor cv f [] of Inl e \<Rightarrow> Inl e | Inr (hsv, calls1) \<Rightarrow>
       (case call_inRange hsv (lower_pink d) (upper_pink d) calls1 of (pink, calls2) \<Rightarrow>
        (let d1 = d\<lparr>mask_pink := Some pink\<rparr>
         in (case call_inRange hsv (lower_green d1) (upper_green d1) calls2 of (green, calls3) \<Rightarrow>
          (let d2 = d1\<lparr>mask_green := Some green\<rparr>
           in (case call_inRange hsv (lower_bomb d2) (upper_bomb d2) calls3 of (bomb, calls4) \<Rightarrow>
            (let d3 = d2\<lparr>mask_bomb := Some bomb\<rparr>
             in modify_masks d3 calls4)))))))"

text \<open>
  \<open>np.linalg.norm(bomb_center - object_center) < 100\<close>: the norm is the double
  \<open>sqrt(dx*dx + dy*dy)\<close>. For pixel coordinates the sum of squares is an exact double,
  the square root is correctly rounded and 100 is a double, so the comparison holds
  exactly when the integer \<open>dx*dx + dy*dy\<close> is below 10000.
\<close>

definition norm_lt_100 :: "int \<times> int \<Rightarrow> int \<times> int \<Rightarrow> bool" where
  "norm_lt_100 a b =
     (case a of (ax, ay) \<Rightarrow> (case b of (bx, by) \<Rightarrow>
        (ax - bx) * (ax - bx) + (ay - by) * (ay - by) < 10000))"

text \<open>The loop of \<open>is_bomb_near\<close> over the hazard contours, with its early return.\<close>

fun bomb_loop :: "'c opencv \<Rightarrow> int \<times> int \<Rightarrow> 'c list \<Rightarrow> bool" where
  "bomb_loop cv object_center [] = False"
| "bomb_loop cv object_center (bomb_cnt # rest) =
     (case boundingRect cv bomb_cnt of (bomb_x, bomb_y, bomb_w, bomb_h) \<Rightarrow>
       (let bomb_center = (bomb_x + bomb_w div 2, bomb_y + bomb_h div 2)
        in if norm_lt_100 bomb_center object_center then True
           else bomb_loop cv object_center rest))"

definition is_bomb_near :: "'c opencv \<Rightarrow> detection \<Rightarrow> int \<Rightarrow> int \<Rightarrow> int \<Rightarrow> int \<Rightarrow> py_error + bool" where
  "is_bomb_near cv d x y w h =
     (case mask_bomb d of None \<Rightarrow> Inl AttributeError | Some mb \<Rightarrow>
       (let bomb_contours = findContours cv mb;
            object_center = (x + w div 2, y + h div 2)
        in Inr (bomb_loop cv object_center bomb_contours)))"

text \<open>
  \<open>int(self.height * 0.1)\<close>: the product is a double and \<open>int\<close> truncates towards
  zero. For every height a screen can have the result is the height divided by ten,
  truncated towards zero: below \<open>2^32\<close> in absolute value the rounding of the product
  is far smaller than a tenth, and a multiple of ten gives a product that is not
  below the exact quotient. (For heights of about \<open>6.7 * 10^15\<close> and more the double
  can round up to the next integer, and the two differ.)
\<close>

definition ten_percent :: "int \<Rightarrow> int" where
  "ten_percent h = (if 0 \<le> h then h div 10 else - ((- h) div 10))"

text \<open>The loop of \<open>detect_objects\<close> over the contours of the mask.\<close>

fun detect_loop :: "'c opencv \<Rightarrow> detection \<Rightarrow> string \<Rightarrow> 'c list \<Rightarrow> (int \<times> int) list
    \<Rightarrow> py_error + (int \<times> int) list" where
  "detect_loop cv d color_name [] detected_positions = Inr detected_positions"
| "detect_loop cv d color_name (cnt # rest) detected_positions =
     (case boundingRect cv cnt of (x, y, w, h) \<Rightarrow>
       (case is_bomb_near cv d x y w h of Inl e \<Rightarrow> Inl e
        | Inr near \<Rightarrow>
            (if \<not> near then
               (let center_x = x + w div 2;
                    center_y = y + h div 2;
                    screen_x = center_x + start_x d;
                    screen_y = center_y + start_y d + 3;
                    ten_percent_height = ten_percent (height d);
                    top_limit = start_y d + ten_percent_height;
                    bottom_limit = start_y d + height d - ten_percent_height
                in if color_name = ''green'' \<and> (center_y < top_limit \<or> center_y > bottom_limit)
                   then detect_loop cv d color_name rest detected_positions
                   else detect_loop cv d color_name rest (detected_positions @ [(screen_x, screen_y)]))
             else detect_loop cv d color_name rest detected_positions)))"

definition detect_objects :: "'c opencv \<Rightarrow> detection \<Rightarrow> mask \<Rightarrow> string \<Rightarrow> py_error + (int \<times> int) list" where
  "detect_objects cv d m color_name = detect_loop cv d color_name (findContours cv m) []"

text \<open>
  \<open>detect_colors\<close> returns the frame with either one position (a pair) or a list of
  positions; the two shapes are kept apart.
\<close>

datatype positions = Single "int \<times> int" | Many "(int \<times> int) list"

definition detect_colors :: "'c opencv \<Rightarrow> detection \<Rightarrow> frame
    \<Rightarrow> py_error + detection \<times> frame \<times> positions" where
  "detect_colors cv d f =
     (case set_masks cv d f of Inl e \<Rightarrow> Inl e | Inr (d1, _) \<Rightarrow>
       (case mask_pink d1 of None \<Rightarrow> Inl AttributeError | Some mp \<Rightarrow>
         (case detect_objects cv d1 mp ''pink'' of Inl e \<Rightarrow> Inl e | Inr pink_positions \<Rightarrow>
           (case pink_positions of p # _ \<Rightarrow> Inr (d1, f, Single p)
            | [] \<Rightarrow>
              (case mask_green d1 of None \<Rightarrow> Inl AttributeError | Some mg \<Rightarrow>
                (case detect_objects cv d1 mg ''green'' of Inl e \<Rightarrow> Inl e
                 | Inr green_positions \<Rightarrow> Inr (d1, f, Many green_positions)))))))"

section \<open>The coordinate file (clicker/coordinate_controller.py)\<close>

text \<open>
  What \<open>config(key)\<close> of \<open>decouple\<close> finds for a key (the environment first, then the
  file), as a map from keys to values. A path that does not exist is \<open>None\<close>.
\<close>

type_synonym repository = "string \<Rightarrow> string option"

text \<open>
  A Python character below U+0100 is a \<open>char\<close>. \<open>str.isdigit\<close> holds for a string
  that is not empty and whose characters all have the Unicode property Numeric_Type
  Digit or Decimal: below U+0100 these are \<open>0\<close> to \<open>9\<close> and the superscripts two, three
  and one (U+00B2, U+00B3, U+00B9). \<open>int\<close> reads decimal digits only and raises
  \<open>ValueError\<close> on a superscript. \<open>py_int\<close> is \<open>int(s)\<close> for a string that has passed
  \<open>isdigit\<close>, the only strings \<open>get_coordinates\<close> converts; the interpreter's optional
  limit on the number of digits is left out.
\<close>

definition is_decimal_char :: "char \<Rightarrow> bool" where
  "is_decimal_char c = (48 \<le> (of_char c :: nat) \<and> (of_char c :: nat) \<le> 57)"

definition is_digit_char :: "char \<Rightarrow> bool" where
  "is_digit_char c = (is_decimal_char c \<or> (of_char c :: nat) \<in> {178, 179, 185})"

definition isdigit :: "string \<Rightarrow> bool" where
  "isdigit s = (s \<noteq> [] \<and> list_all is_digit_char s)"

definition digits_value :: "string \<Rightarrow> int" where
  "digits_value s = foldl (\<lambda>n c. 10 * n + (int (of_char c) - 48)) 0 s"

definition py_int :: "string \<Rightarrow> py_error + int" where
  "py_int s =
     (if s \<noteq> [] \<and> list_all is_decimal_char s then Inr (digits_value s) else Inl ValueError)"

definition config :: "repository \<Rightarrow> string \<Rightarrow> py_error + string" where
  "config repo key = (case repo key of None \<Rightarrow> Inl UndefinedValueError | Some v \<Rightarrow> Inr v)"

definition check_directory :: "repository option \<Rightarrow> bool" where
  "check_directory file = (case file of None \<Rightarrow> False | Some _ \<Rightarrow> True)"

definition check_coordinates :: "string \<Rightarrow> string \<Rightarrow> string \<Rightarrow> string \<Rightarrow> bool" where
  "check_coordinates sx ex sy ey =
     (if \<not> isdigit sx \<or> \<not> isdigit ex \<or> \<not> isdigit sy \<or> \<not> isdigit ey then False else True)"

text \<open>
  \<open>get_coordinates\<close>: \<open>Inr None\<close> is the bare \<open>return\<close>, \<open>Inr (Some t)\<close> the returned
  tuple \<open>(start_x, start_y, width, height)\<close>, \<open>Inl e\<close> an exception that escapes.
\<close>

definition get_coordinates :: "repository option \<Rightarrow> py_error + (int \<times> int \<times> int \<times> int) option" where
  "get_coordinates file =
     (if check_directory file = False then Inr None
      else (case file of None \<Rightarrow> Inr None | Some repo \<Rightarrow>
        (case config repo ''start_x'' of Inl e \<Rightarrow> Inl e | Inr sx \<Rightarrow>
        (case config repo ''end_x'' of Inl e \<Rightarrow> Inl e | Inr ex \<Rightarrow>
        (case config repo ''start_y'' of Inl e \<Rightarrow> Inl e | Inr sy \<Rightarrow>
        (case config repo ''end_y'' of Inl e \<Rightarrow> Inl e | Inr ey \<Rightarrow>
          (if check_coordinates sx ex sy ey = False then Inr None
           else
            (case py_int sx of Inl e \<Rightarrow> Inl e | Inr start_x' \<Rightarrow>
            (case py_int ex of Inl e \<Rightarrow> Inl e | Inr end_x' \<Rightarrow>
            (case py_int sy of Inl e \<Rightarrow> Inl e | Inr start_y' \<Rightarrow>
            (case py_int ey of Inl e \<Rightarrow> Inl e | Inr end_y' \<Rightarrow>
              (let width' = end_x' - start_x'; height' = end_y' - start_y'
               in Inr (Some (start_x', start_y', width', height'))))))))))))))"

section \<open>Notions the properties are stated with\<close>



definition rect_center :: "rect \<Rightarrow> int \<times> int" where
  "rect_center r = (case r of (x, y, w, h) \<Rightarrow> (x + w div 2, y + h div 2))"

definition euclid :: "int \<times> int \<Rightarrow> int \<times> int \<Rightarrow> real" where
  "euclid a b = sqrt (real_of_int ((fst a - fst b)\<^sup>2 + (snd a - snd b)\<^sup>2))"

definition screen_point :: "detection \<Rightarrow> rect \<Rightarrow> int \<times> int" where
  "screen_point d r =
     (case rect_center r of (cx, cy) \<Rightarrow> (cx + start_x d, cy + start_y d + 3))"

text \<open>A hazard contour of the mask \<open>mb\<close> has its centre less than 100 pixels away.\<close>

definition hazard :: "'c opencv \<Rightarrow> mask \<Rightarrow> rect \<Rightarrow> bool" where
  "hazard cv mb r = bomb_loop cv (rect_center r) (findContours cv mb)"

text \<open>The band test of \<open>detect_objects\<close>, as the code computes it.\<close>

definition band_reject :: "detection \<Rightarrow> string \<Rightarrow> rect \<Rightarrow> bool" where
  "band_reject d color_name r =
     (color_name = ''green'' \<and>
      (snd (rect_center r) < start_y d + ten_percent (height d) \<or>
       snd (rect_center r) > start_y d + height d - ten_percent (height d)))"

definition admitted :: "'c opencv \<Rightarrow> detection \<Rightarrow> mask \<Rightarrow> string \<Rightarrow> 'c \<Rightarrow> bool" where
  "admitted cv d mb color_name cnt =
     (\<not> hazard cv mb (boundingRect cv cnt) \<and> \<not> band_reject d color_name (boundingRect cv cnt))"

text \<open>
  The band rule as the specification words it: the vertical centre, in mask
  coordinates, lies in the top or the bottom tenth of the region's height.
\<close>

definition in_margin_band :: "int \<Rightarrow> int \<Rightarrow> bool" where
  "in_margin_band region_height center_y =
     (center_y < ten_percent region_height \<or>
      center_y > region_height - ten_percent region_height)"

text \<open>
  The choice \<open>detect_colors\<close> makes between the two results in its last lines, as a
  function of them: the selection policy.
\<close>

definition select :: "(int \<times> int) list \<Rightarrow> (int \<times> int) list \<Rightarrow> positions" where
  "select pink green = (case pink of p # _ \<Rightarrow> Single p | [] \<Rightarrow> Many green)"

definition rows :: "'a list list \<Rightarrow> int" where
  "rows m = int (length m)"

definition cols :: "'a list list \<Rightarrow> int" where
  "cols m = (case m of [] \<Rightarrow> 0 | r # _ \<Rightarrow> int (length r))"

text \<open>
  What the library guarantees of the contours of an image: every bounding box has
  at least one pixel and lies inside the image.
\<close>

definition contours_inside :: "'c opencv \<Rightarrow> mask \<Rightarrow> bool" where
  "contours_inside cv m =
     list_all (\<lambda>c. case boundingRect cv c of (x, y, w, h) \<Rightarrow>
        0 \<le> x \<and> 0 \<le> y \<and> 1 \<le> w \<and> 1 \<le> h \<and> x + w \<le> cols m \<and> y + h \<le> rows m)
       (findContours cv m)"

section \<open>Hazard centres extracted once per cycle\<close>

text \<open>
  The scheme the specification proposes: the centres of the hazard contours are
  computed once, after the masks are set, and every candidate is tested against that
  list. The rest of the cycle is as in \<open>detect_objects\<close> and \<open>detect_colors\<close>.
\<close>

definition bomb_centers :: "'c opencv \<Rightarrow> mask \<Rightarrow> (int \<times> int) list" where
  "bomb_centers cv mb =
     map (\<lambda>bomb_cnt. case boundingRect cv bomb_cnt of (bomb_x, bomb_y, bomb_w, bomb_h) \<Rightarrow>
            (bomb_x + bomb_w div 2, bomb_y + bomb_h div 2))
         (findContours cv mb)"

definition is_bomb_near_pre :: "(int \<times> int) list \<Rightarrow> int \<Rightarrow> int \<Rightarrow> int \<Rightarrow> int \<Rightarrow> bool" where
  "is_bomb_near_pre centers x y w h =
     list_ex (\<lambda>bomb_center. norm_lt_100 bomb_center (x + w div 2, y + h div 2)) centers"

fun detect_loop_pre :: "'c opencv \<Rightarrow> detection \<Rightarrow> (int \<times> int) list \<Rightarrow> string \<Rightarrow> 'c list
    \<Rightarrow> (int \<times> int) list \<Rightarrow> (int \<times> int) list" where
  "detect_loop_pre cv d centers color_name [] detected_positions = detected_positions"
| "detect_loop_pre cv d centers color_name (cnt # rest) detected_positions =
     (case boundingRect cv cnt of (x, y, w, h) \<Rightarrow>
       (if \<not> is_bomb_near_pre centers x y w h then
          (let center_x = x + w div 2;
               center_y = y + h div 2;
               screen_x = center_x + start_x d;
               screen_y = center_y + start_y d + 3;
               ten_percent_height = ten_percent (height d);
               top_limit = start_y d + ten_percent_height;
               bottom_limit = start_y d + height d - ten_percent_height
           in if color_name = ''green'' \<and> (center_y < top_limit \<or> center_y > bottom_limit)
              then detect_loop_pre cv d centers color_name rest detected_positions
              else detect_loop_pre cv d centers color_name rest
                     (detected_positions @ [(screen_x, screen_y)]))
        else detect_loop_pre cv d centers color_name rest detected_positions))"

definition detect_objects_pre :: "'c opencv \<Rightarrow> detection \<Rightarrow> (int \<times> int) list \<Rightarrow> mask \<Rightarrow> string
    \<Rightarrow> (int \<times> int) list" where
  "detect_objects_pre cv d centers m color_name =
     detect_loop_pre cv d centers color_name (findContours cv m) []"

definition detect_colors_pre :: "'c opencv \<Rightarrow> detection \<Rightarrow> frame
    \<Rightarrow> py_error + detection \<times> frame \<times> positions" where
  "detect_colors_pre cv d f =
     (case set_masks cv d f of Inl e \<Rightarrow> Inl e | Inr (d1, _) \<Rightarrow>
       (case mask_bomb d1 of None \<Rightarrow> Inl AttributeError | Some mb \<Rightarrow>
         (let centers = bomb_centers cv mb
          in (case mask_pink d1 of None \<Rightarrow> Inl AttributeError | Some mp \<Rightarrow>
            (case detect_objects_pre cv d1 centers mp ''pink'' of
               p # _ \<Rightarrow> Inr (d1, f, Single p)
             | [] \<Rightarrow>
               (case mask_green d1 of None \<Rightarrow> Inl AttributeError | Some mg \<Rightarrow>
                  Inr (d1, f, Many (detect_objects_pre cv d1 centers mg ''green''))))))))"

section \<open>Concrete inputs\<close>

text \<open>
  A stand-in for the library on small examples: pixels are taken as already in HSV,
  and a contour is given by its bounding box.
\<close>

definition box_cv :: "(mask \<Rightarrow> rect list) \<Rightarrow> rect opencv" where
  "box_cv fc = \<lparr>bgr2hsv = (\<lambda>p. p), findContours = fc, boundingRect = (\<lambda>r. r)\<rparr>"

definition pink_px :: pixel where "pink_px = (170, 100, 150)"
definition green_px :: pixel where "green_px = (60, 100, 100)"
definition dark_px :: pixel where "dark_px = (0, 0, 0)"

text \<open>
  A 100 x 100 mask with one 10 x 10 blob whose bounding box is \<open>(10, 45, 10, 10)\<close>, the
  empty mask of the same size, and a contour finder that reports the blob where its
  middle pixel is set.
\<close>

definition blob_mask :: mask where
  "blob_mask =
     replicate 45 (replicate 100 0) @
     replicate 10 (replicate 10 0 @ replicate 10 255 @ replicate 80 0) @
     replicate 45 (replicate 100 0)"

definition zero_mask :: mask where
  "zero_mask = replicate 100 (replicate 100 0)"

definition blob_cv :: "rect opencv" where
  "blob_cv = box_cv (\<lambda>m. if m ! 50 ! 15 = 255 then [(10, 45, 10, 10)] else [])"

text \<open>
  Masks of 100 rows and 300 columns with one 10 x 10 blob whose bounding box is
  \<open>(x0, 45, 10, 10)\<close>, and a contour finder that reports the blob at \<open>x0 = 10\<close>, 60 or
  160 where its middle pixel is set.
\<close>

definition wide_blob :: "nat \<Rightarrow> mask" where
  "wide_blob x0 =
     replicate 45 (replicate 300 0) @
     replicate 10 (replicate x0 0 @ replicate 10 255 @ replicate (290 - x0) 0) @
     replicate 45 (replicate 300 0)"

definition wide_cv :: "rect opencv" where
  "wide_cv = box_cv (\<lambda>m.
     if m ! 50 ! 15 = 255 then [(10, 45, 10, 10)]
     else if m ! 50 ! 65 = 255 then [(60, 45, 10, 10)]
     else if m ! 50 ! 165 = 255 then [(160, 45, 10, 10)]
     else [])"

text \<open>
  The library on 1 x 1 images: the only contour is the pixel itself, when it is set.
\<close>

definition tiny_cv :: "rect opencv" where
  "tiny_cv = box_cv (\<lambda>m. if m = [[255]] then [(0, 0, 1, 1)] else [])"

text \<open>The state \<open>set_masks\<close> leaves behind, written out.\<close>

definition masks_of :: "'c opencv \<Rightarrow> detection \<Rightarrow> frame \<Rightarrow> detection" where
  "masks_of cv d f =
     d\<lparr>mask_pink := Some (dilate (erode (inRange (map (map (bgr2hsv cv)) f) (lower_pink d) (upper_pink d)))),
        mask_green := Some (dilate (erode (inRange (map (map (bgr2hsv cv)) f) (lower_green d) (upper_green d)))),
        mask_bomb := Some (dilate (erode (inRange (map (map (bgr2hsv cv)) f) (lower_bomb d) (upper_bomb d))))\<rparr>"

text \<open>The log \<open>set_masks\<close> returns, written out.\<close>

definition calls_of :: "'c opencv \<Rightarrow> detection \<Rightarrow> frame \<Rightarrow> cv_call list" where
  "calls_of cv d f =
     (let hsv = map (map (bgr2hsv cv)) f;
          pink = inRange hsv (lower_pink d) (upper_pink d);
          green = inRange hsv (lower_green d) (upper_green d);
          bomb = inRange hsv (lower_bomb d) (upper_bomb d)
      in [CvtColor f,
          InRange hsv (lower_pink d) (upper_pink d),
          InRange hsv (lower_green d) (upper_green d),
          InRange hsv (lower_bomb d) (upper_bomb d),
          Erode pink, Dilate (erode pink),
          Erode green, Dilate (erode green),
          Erode bomb, Dilate (erode bomb)])"




text \<open>
  A non-empty string of decimal digits, a string of ASCII characters, and the file
  that holds the four keys with the given values.
\<close>

definition decimal_string :: "string \<Rightarrow> bool" where
  "decimal_string s = (s \<noteq> [] \<and> list_all is_decimal_char s)"

definition ascii_string :: "string \<Rightarrow> bool" where
  "ascii_string s = list_all (\<lambda>c. (of_char c :: nat) < 128) s"

definition coordinate_file :: "string \<Rightarrow> string \<Rightarrow> string \<Rightarrow> string \<Rightarrow> repository" where
  "coordinate_file sx ex sy ey =
     map_of [(''start_x'', sx), (''end_x'', ex), (''start_y'', sy), (''end_y'', ey)]"

section \<open>The detector over a store of arrays\<close>

text \<open>
  numpy arrays are mutable objects and are passed by reference. To say what a cycle
  writes, the methods of \<open>Detection\<close> are written once more over a store: the list of
  the arrays allocated so far, an address being an index into it. The frame and the
  mask attributes are addresses. The library routines are parameters that take the
  store and give the new store with an error or a result; what they may do to the
  store is a hypothesis of the properties, not part of the definitions.
\<close>

datatype ndarray = Colour frame | Grey mask

type_synonym addr = nat

type_synonym store = "ndarray list"

record 'c cvlib =
  lib_cvtColor :: "store \<Rightarrow> addr \<Rightarrow> store \<times> (py_error + addr)"
  lib_inRange :: "store \<Rightarrow> addr \<Rightarrow> bound \<Rightarrow> bound \<Rightarrow> store \<times> (py_error + addr)"
  lib_erode :: "store \<Rightarrow> addr \<Rightarrow> store \<times> (py_error + addr)"
  lib_dilate :: "store \<Rightarrow> addr \<Rightarrow> store \<times> (py_error + addr)"
  lib_findContours :: "store \<Rightarrow> addr \<Rightarrow> store \<times> (py_error + 'c list)"
  lib_boundingRect :: "'c \<Rightarrow> rect"

record detection_obj =
  obj_start_x :: int
  obj_start_y :: int
  obj_height :: int
  obj_width :: int
  obj_lower_pink :: bound
  obj_upper_pink :: bound
  obj_lower_green :: bound
  obj_upper_green :: bound
  obj_lower_bomb :: bound
  obj_upper_bomb :: bound
  ref_pink :: "addr option"
  ref_green :: "addr option"
  ref_bomb :: "addr option"

definition init_obj :: "int \<Rightarrow> int \<Rightarrow> int \<Rightarrow> int \<Rightarrow> detection_obj" where
  "init_obj sx sy h w =
     \<lparr>obj_start_x = sx, obj_start_y = sy, obj_height = h, obj_width = w,
      obj_lower_pink = (160, 20, 100), obj_upper_pink = (180, 255, 255),
      obj_lower_green = (40, 50, 50), obj_upper_green = (80, 255, 255),
      obj_lower_bomb = (0, 0, 50), obj_upper_bomb = (180, 50, 200),
      ref_pink = None, ref_green = None, ref_bomb = None\<rparr>"

text \<open>
  Sequencing: an error ends the method, with the store as it is at that point.
  \<open>attr\<close> reads an attribute that may not exist yet.
\<close>

definition then_st :: "store \<times> (py_error + 'a) \<Rightarrow> (store \<Rightarrow> 'a \<Rightarrow> store \<times> (py_error + 'b))
    \<Rightarrow> store \<times> (py_error + 'b)" where
  "then_st r k = (case r of (h, Inl e) \<Rightarrow> (h, Inl e) | (h, Inr v) \<Rightarrow> k h v)"

definition attr :: "'a option \<Rightarrow> store \<Rightarrow> store \<times> (py_error + 'a)" where
  "attr v h = (case v of None \<Rightarrow> (h, Inl AttributeError) | Some x \<Rightarrow> (h, Inr x))"

definition modify_masks_st :: "'c cvlib \<Rightarrow> detection_obj \<Rightarrow> store \<Rightarrow> store \<times> (py_error + detection_obj)" where
  "modify_masks_st lib d h =
     then_st (attr (ref_pink d) h) (\<lambda>h mp.
     then_st (lib_erode lib h mp) (\<lambda>h mask_pink'.
     then_st (lib_dilate lib h mask_pink') (\<lambda>h pink.
     (let d1 = d\<lparr>ref_pink := Some pink\<rparr> in
     then_st (attr (ref_green d1) h) (\<lambda>h mg.
     then_st (lib_erode lib h mg) (\<lambda>h mask_green'.
     then_st (lib_dilate lib h mask_green') (\<lambda>h green.
     (let d2 = d1\<lparr>ref_green := Some green\<rparr> in
     then_st (attr (ref_bomb d2) h) (\<lambda>h mb.
     then_st (lib_erode lib h mb) (\<lambda>h mask_bomb'.
     then_st (lib_dilate lib h mask_bomb') (\<lambda>h bomb.
     (let d3 = d2\<lparr>ref_bomb := Some bomb\<rparr> in (h, Inr d3)))))))))))))"

definition set_masks_st :: "'c cvlib \<Rightarrow> detection_obj \<Rightarrow> store \<Rightarrow> addr \<Rightarrow> store \<times> (py_error + detection_obj)" where
  "set_masks_st lib d h frame =
     then_st (lib_cvtColor lib h frame) (\<lambda>h hsv.
     then_st (lib_inRange lib h hsv (obj_lower_pink d) (obj_upper_pink d)) (\<lambda>h pink.
     (let d1 = d\<lparr>ref_pink := Some pink\<rparr> in
     then_st (lib_inRange lib h hsv (obj_lower_green d1) (obj_upper_green d1)) (\<lambda>h green.
     (let d2 = d1\<lparr>ref_green := Some green\<rparr> in
     then_st (lib_inRange lib h hsv (obj_lower_bomb d2) (obj_upper_bomb d2)) (\<lambda>h bomb.
     (let d3 = d2\<lparr>ref_bomb := Some bomb\<rparr> in
     modify_masks_st lib d3 h)))))))"

fun bomb_loop_st :: "'c cvlib \<Rightarrow> int \<times> int \<Rightarrow> 'c list \<Rightarrow> bool" where
  "bomb_loop_st lib object_center [] = False"
| "bomb_loop_st lib object_center (bomb_cnt # rest) =
     (case lib_boundingRect lib bomb_cnt of (bomb_x, bomb_y, bomb_w, bomb_h) \<Rightarrow>
       (let bomb_center = (bomb_x + bomb_w div 2, bomb_y + bomb_h div 2)
        in if norm_lt_100 bomb_center object_center then True
           else bomb_loop_st lib object_center rest))"

definition is_bomb_near_st :: "'c cvlib \<Rightarrow> detection_obj \<Rightarrow> store \<Rightarrow> int \<Rightarrow> int \<Rightarrow> int \<Rightarrow> int
    \<Rightarrow> store \<times> (py_error + bool)" where
  "is_bomb_near_st lib d h x y w ht =
     then_st (attr (ref_bomb d) h) (\<lambda>h mb.
     then_st (lib_findContours lib h mb) (\<lambda>h bomb_contours.
     (let object_center = (x + w div 2, y + ht div 2)
      in (h, Inr (bomb_loop_st lib object_center bomb_contours)))))"

fun detect_loop_st :: "'c cvlib \<Rightarrow> detection_obj \<Rightarrow> string \<Rightarrow> store \<Rightarrow> 'c list \<Rightarrow> (int \<times> int) list
    \<Rightarrow> store \<times> (py_error + (int \<times> int) list)" where
  "detect_loop_st lib d color_name h [] detected_positions = (h, Inr detected_positions)"
| "detect_loop_st lib d color_name h (cnt # rest) detected_positions =
     (case lib_boundingRect lib cnt of (x, y, w, ht) \<Rightarrow>
       (case is_bomb_near_st lib d h x y w ht of
          (h1, Inl e) \<Rightarrow> (h1, Inl e)
        | (h1, Inr near) \<Rightarrow>
            (if \<not> near then
               (let center_x = x + w div 2;
                    center_y = y + ht div 2;
                    screen_x = center_x + obj_start_x d;
                    screen_y = center_y + obj_start_y d + 3;
                    ten_percent_height = ten_percent (obj_height d);
                    top_limit = obj_start_y d + ten_percent_height;
                    bottom_limit = obj_start_y d + obj_height d - ten_percent_height
                in if color_name = ''green'' \<and> (center_y < top_limit \<or> center_y > bottom_limit)
                   then detect_loop_st lib d color_name h1 rest detected_positions
                   else detect_loop_st lib d color_name h1 rest
                          (detected_positions @ [(screen_x, screen_y)]))
             else detect_loop_st lib d color_name h1 rest detected_positions)))"

definition detect_objects_st :: "'c cvlib \<Rightarrow> detection_obj \<Rightarrow> store \<Rightarrow> addr \<Rightarrow> string
    \<Rightarrow> store \<times> (py_error + (int \<times> int) list)" where
  "detect_objects_st lib d h m color_name =
     then_st (lib_findContours lib h m) (\<lambda>h contours.
       detect_loop_st lib d color_name h contours [])"

definition detect_colors_st :: "'c cvlib \<Rightarrow> detection_obj \<Rightarrow> store \<Rightarrow> addr
    \<Rightarrow> store \<times> (py_error + detection_obj \<times> addr \<times> positions)" where
  "detect_colors_st lib d h frame =
     then_st (set_masks_st lib d h frame) (\<lambda>h d1.
     then_st (attr (ref_pink d1) h) (\<lambda>h mp.
     then_st (detect_objects_st lib d1 h mp ''pink'') (\<lambda>h pink_positions.
       (case pink_positions of p # _ \<Rightarrow> (h, Inr (d1, frame, Single p))
        | [] \<Rightarrow>
          then_st (attr (ref_green d1) h) (\<lambda>h mg.
          then_st (detect_objects_st lib d1 h mg ''green'') (\<lambda>h green_positions.
            (h, Inr (d1, frame, Many green_positions))))))))"

text \<open>
  What the Python binding of OpenCV promises of \<open>cvtColor\<close>, \<open>inRange\<close>, \<open>erode\<close> and
  \<open>dilate\<close> when no destination is passed: the result is a new array, and every array
  allocated before is left as it was. \<open>findContours\<close> is allowed to write to the image
  it is given (it did before OpenCV 3.2), and to no other array.
\<close>

definition allocates :: "(store \<Rightarrow> addr \<Rightarrow> store \<times> (py_error + addr)) \<Rightarrow> bool" where
  "allocates op =
     (\<forall>h src. case op h src of (h', r) \<Rightarrow>
        take (length h) h' = h \<and>
        (case r of Inl e \<Rightarrow> True | Inr dst \<Rightarrow> length h \<le> dst \<and> dst < length h'))"

definition writes_source_only :: "(store \<Rightarrow> addr \<Rightarrow> store \<times> (py_error + 'c list)) \<Rightarrow> bool" where
  "writes_source_only fc =
     (\<forall>h src. case fc h src of (h', r) \<Rightarrow>
        length h \<le> length h' \<and> (\<forall>i<length h. i \<noteq> src \<longrightarrow> h' ! i = h ! i))"

definition cvlib_contract :: "'c cvlib \<Rightarrow> bool" where
  "cvlib_contract lib =
     (allocates (lib_cvtColor lib) \<and>
      (\<forall>lo hi. allocates (\<lambda>h src. lib_inRange lib h src lo hi)) \<and>
      allocates (lib_erode lib) \<and>
      allocates (lib_dilate lib) \<and>
      writes_source_only (lib_findContours lib))"

text \<open>
  The array at an address is kept from one store to a later one; every mask the
  object refers to was allocated after the address; a method keeps the array at the
  address, and its result, when it returns one, satisfies \<open>Q\<close>.
\<close>

definition kept :: "addr \<Rightarrow> store \<Rightarrow> store \<Rightarrow> bool" where
  "kept a h h' = (length h \<le> length h' \<and> h' ! a = h ! a)"

definition refs_above :: "addr \<Rightarrow> detection_obj \<Rightarrow> bool" where
  "refs_above a d =
     ((case ref_pink d of None \<Rightarrow> True | Some m \<Rightarrow> a < m) \<and>
      (case ref_green d of None \<Rightarrow> True | Some m \<Rightarrow> a < m) \<and>
      (case ref_bomb d of None \<Rightarrow> True | Some m \<Rightarrow> a < m))"

definition post :: "addr \<Rightarrow> store \<Rightarrow> ('a \<Rightarrow> bool) \<Rightarrow> store \<times> (py_error + 'a) \<Rightarrow> bool" where
  "post a h0 Q r =
     (case r of (h', x) \<Rightarrow> kept a h0 h' \<and> (case x of Inl e \<Rightarrow> True | Inr v \<Rightarrow> Q v))"

text \<open>
  The library of the first sections as a library over the store: every routine reads
  its source, allocates its result and writes nothing else. (An address outside the
  store, or of an array of the wrong kind, is answered with an error.) The second
  library differs in one routine: its \<open>cvtColor\<close> converts in place.
\<close>

definition alloc :: "store \<Rightarrow> ndarray \<Rightarrow> store \<times> (py_error + addr)" where
  "alloc h x = (h @ [x], Inr (length h))"

definition read_colour :: "store \<Rightarrow> addr \<Rightarrow> (frame \<Rightarrow> store \<times> (py_error + 'a)) \<Rightarrow> store \<times> (py_error + 'a)" where
  "read_colour h src k =
     (if src < length h
      then (case h ! src of Colour f \<Rightarrow> k f | Grey _ \<Rightarrow> (h, Inl CvError))
      else (h, Inl CvError))"

definition read_grey :: "store \<Rightarrow> addr \<Rightarrow> (mask \<Rightarrow> store \<times> (py_error + 'a)) \<Rightarrow> store \<times> (py_error + 'a)" where
  "read_grey h src k =
     (if src < length h
      then (case h ! src of Grey m \<Rightarrow> k m | Colour _ \<Rightarrow> (h, Inl CvError))
      else (h, Inl CvError))"

definition array_lib :: "'c opencv \<Rightarrow> 'c cvlib" where
  "array_lib cv =
     \<lparr>lib_cvtColor = (\<lambda>h src. read_colour h src (\<lambda>f.
         (case cvtColor cv f of Inl e \<Rightarrow> (h, Inl e) | Inr hsv \<Rightarrow> alloc h (Colour hsv)))),
      lib_inRange = (\<lambda>h src lo hi. read_colour h src (\<lambda>hsv. alloc h (Grey (inRange hsv lo hi)))),
      lib_erode = (\<lambda>h src. read_grey h src (\<lambda>m. alloc h (Grey (erode m)))),
      lib_dilate = (\<lambda>h src. read_grey h src (\<lambda>m. alloc h (Grey (dilate m)))),
      lib_findContours = (\<lambda>h src. read_grey h src (\<lambda>m. (h, Inr (findContours cv m)))),
      lib_boundingRect = boundingRect cv\<rparr>"

definition inplace_lib :: "'c opencv \<Rightarrow> 'c cvlib" where
  "inplace_lib cv =
     (array_lib cv)\<lparr>lib_cvtColor := (\<lambda>h src. read_colour h src (\<lambda>f.
         (case cvtColor cv f of Inl e \<Rightarrow> (h, Inl e)
          | Inr hsv \<Rightarrow> (h[src := Colour hsv], Inr src))))\<rparr>"

definition dark_cv :: "rect opencv" where
  "dark_cv = tiny_cv\<lparr>bgr2hsv := (\<lambda>p. dark_px)\<rparr>"

text \<open>
  The object over the store that has the region and bounds of \<open>d\<close> and the given
  mask addresses, and the ten arrays a cycle allocates, in order.
\<close>

definition obj_of :: "detection \<Rightarrow> addr option \<Rightarrow> addr option \<Rightarrow> addr option \<Rightarrow> detection_obj" where
  "obj_of d p g b =
     \<lparr>obj_start_x = start_x d, obj_start_y = start_y d, obj_height = height d, obj_width = width d,
      obj_lower_pink = lower_pink d, obj_upper_pink = upper_pink d,
      obj_lower_green = lower_green d, obj_upper_green = upper_green d,
      obj_lower_bomb = lower_bomb d, obj_upper_bomb = upper_bomb d,
      ref_pink = p, ref_green = g, ref_bomb = b\<rparr>"

definition arrays_of :: "'c opencv \<Rightarrow> detection \<Rightarrow> frame \<Rightarrow> ndarray list" where
  "arrays_of cv d f =
     (let hsv = map (map (bgr2hsv cv)) f;
          pink = inRange hsv (lower_pink d) (upper_pink d);
          green = inRange hsv (lower_green d) (upper_green d);
          bomb = inRange hsv (lower_bomb d) (upper_bomb d)
      in [Colour hsv, Grey pink, Grey green, Grey bomb,
          Grey (erode pink), Grey (dilate (erode pink)),
          Grey (erode green), Grey (dilate (erode green)),
          Grey (erode bomb), Grey (dilate (erode bomb))])"






section \<open>Auxiliary facts\<close>

subsection \<open>The masks\<close>












lemma modify_masks_Some:
  assumes "mask_pink d = Some mp" "mask_green d = Some mg" "mask_bomb d = Some mb"
  shows "modify_masks d calls =
         Inr (d\<lparr>mask_pink := Some (dilate (erode mp)), mask_green := Some (dilate (erode mg)),
                  mask_bomb := Some (dilate (erode mb))\<rparr>,
              calls @ [Erode mp, Dilate (erode mp), Erode mg, Dilate (erode mg),
                     Erode mb, Dilate (erode mb)])"
  using assms by (simp add: modify_masks_def call_erode_def call_dilate_def Let_def)

lemma set_masks_empty: "frame_empty f \<Longrightarrow> set_masks cv d f = Inl CvError"
  by (simp add: set_masks_def call_cvtColor_def cvtColor_def)

lemma set_masks_nonempty:
  "\<not> frame_empty f \<Longrightarrow> set_masks cv d f = Inr (masks_of cv d f, calls_of cv d f)"
  by (simp add: set_masks_def call_cvtColor_def call_inRange_def cvtColor_def Let_def
      modify_masks_Some masks_of_def calls_of_def)

lemma calls_of_stale:
  "calls_of cv (d\<lparr>mask_pink := a, mask_green := b, mask_bomb := c\<rparr>) f = calls_of cv d f"
  by (simp add: calls_of_def)

lemma calls_of_idem: "calls_of cv (masks_of cv d f) f = calls_of cv d f"
  by (simp add: calls_of_def masks_of_def)

subsection \<open>The hazard test and the loop over the candidates\<close>

lemma sqrt_10000: "sqrt 10000 = 100"
  by (rule real_sqrt_unique) simp_all

lemma norm_lt_100_euclid: "norm_lt_100 a b \<longleftrightarrow> euclid a b < 100"
proof -
  obtain ax ay bx by' where ab: "a = (ax, ay)" "b = (bx, by')"
    by (cases a, cases b) auto
  let ?n = "(ax - bx)\<^sup>2 + (ay - by')\<^sup>2"
  have "sqrt (real_of_int ?n) < 100 \<longleftrightarrow> real_of_int ?n < 10000"
    using real_sqrt_less_iff[of "real_of_int ?n" 10000] by (simp add: sqrt_10000)
  also have "\<dots> \<longleftrightarrow> ?n < 10000"
    using of_int_less_iff[of ?n 10000, where ?'a = real] by simp
  finally show ?thesis
    by (simp add: ab norm_lt_100_def euclid_def power2_eq_square)
qed

lemma bomb_loop_iff:
  "bomb_loop cv oc cs \<longleftrightarrow> (\<exists>c\<in>set cs. norm_lt_100 (rect_center (boundingRect cv c)) oc)"
  by (induction cs) (auto simp: rect_center_def Let_def split: prod.splits)

lemma is_bomb_near_Some:
  "mask_bomb d = Some mb \<Longrightarrow> is_bomb_near cv d x y w h = Inr (hazard cv mb (x, y, w, h))"
  by (simp add: is_bomb_near_def hazard_def rect_center_def)

lemma detect_loop_Cons:
  assumes "mask_bomb d = Some mb"
  shows "detect_loop cv d color_name (c # cs) acc =
         detect_loop cv d color_name cs
           (if admitted cv d mb color_name c then acc @ [screen_point d (boundingRect cv c)] else acc)"
proof -
  obtain x y w h where r: "boundingRect cv c = (x, y, w, h)"
    by (cases "boundingRect cv c") auto
  show ?thesis
    using assms
    by (simp add: r is_bomb_near_Some admitted_def band_reject_def screen_point_def
        rect_center_def Let_def)
qed

lemma detect_loop_eq:
  assumes "mask_bomb d = Some mb"
  shows "detect_loop cv d color_name cs acc =
         Inr (acc @ map (\<lambda>c. screen_point d (boundingRect cv c)) (filter (admitted cv d mb color_name) cs))"
proof (induction cs arbitrary: acc)
  case Nil
  then show ?case by simp
next
  case (Cons c cs)
  show ?case
    by (simp only: detect_loop_Cons[OF assms] Cons.IH) simp
qed

lemma detect_objects_eq:
  assumes "mask_bomb d = Some mb"
  shows "detect_objects cv d m color_name =
         Inr (map (\<lambda>c. screen_point d (boundingRect cv c))
                (filter (admitted cv d mb color_name) (findContours cv m)))"
  by (simp add: detect_objects_def detect_loop_eq[OF assms])

lemma blob_mask_mid: "blob_mask ! 50 ! 15 = 255"
  by (simp add: blob_mask_def nth_append)

lemma zero_mask_mid: "zero_mask ! 50 ! 15 = 0"
  by (simp add: zero_mask_def)

lemma blob_cv_simps:
  "findContours blob_cv blob_mask = [(10, 45, 10, 10)]"
  "findContours blob_cv zero_mask = []"
  "boundingRect blob_cv r = r"
  by (simp_all add: blob_cv_def box_cv_def blob_mask_mid zero_mask_mid)

lemma green_band_rule:
  assumes "mask_bomb d = Some mb"
  shows "detect_objects cv d m ''green'' =
         Inr (map (\<lambda>c. screen_point d (boundingRect cv c))
               (filter (\<lambda>c. \<not> hazard cv mb (boundingRect cv c) \<and>
                     \<not> in_margin_band (height d) (snd (rect_center (boundingRect cv c)) - start_y d))
                  (findContours cv m)))"
proof -
  have "admitted cv d mb ''green'' =
        (\<lambda>c. \<not> hazard cv mb (boundingRect cv c) \<and>
         \<not> in_margin_band (height d) (snd (rect_center (boundingRect cv c)) - start_y d))"
    by (rule ext) (auto simp: admitted_def band_reject_def in_margin_band_def)
  then show ?thesis
    by (simp add: detect_objects_eq[OF assms])
qed

lemma pink_no_band:
  assumes "mask_bomb d = Some mb"
  shows "detect_objects cv d m ''pink'' =
         Inr (map (\<lambda>c. screen_point d (boundingRect cv c))
               (filter (\<lambda>c. \<not> hazard cv mb (boundingRect cv c)) (findContours cv m)))"
proof -
  have "admitted cv d mb ''pink'' = (\<lambda>c. \<not> hazard cv mb (boundingRect cv c))"
    by (rule ext) (simp add: admitted_def band_reject_def)
  then show ?thesis
    by (simp add: detect_objects_eq[OF assms])
qed

section \<open>The properties\<close>

subsection \<open>The green band (C1)\<close>

text \<open>
  C1. The green band rule should discard exactly the candidates whose vertical centre,
  in mask coordinates, lies in the top or bottom tenth of the region's height. The
  code adds \<open>start_y\<close> to both limits and compares them with the centre in mask
  coordinates: a blob with its centre at 50 of a region of height 100, outside both
  margins, is discarded when the region starts at \<open>start_y = 500\<close> and admitted when
  it starts at \<open>start_y = 0\<close>. Under the name \<open>pink\<close> the same blob is admitted: the band
  test is for \<open>green\<close> only.
\<close>

theorem green_band_compares_local_centre_with_screen_limits:
  "detect_objects blob_cv ((init 0 500 100 100)\<lparr>mask_bomb := Some zero_mask\<rparr>) blob_mask ''green'' = Inr []
   \<and> rect_center (10, 45, 10, 10) = (15, 50)
   \<and> \<not> in_margin_band 100 50
   \<and> detect_objects blob_cv ((init 0 0 100 100)\<lparr>mask_bomb := Some zero_mask\<rparr>) blob_mask ''green'' = Inr [(15, 53)]
   \<and> detect_objects blob_cv ((init 0 500 100 100)\<lparr>mask_bomb := Some zero_mask\<rparr>) blob_mask ''pink'' = Inr [(15, 553)]"
proof -
  let ?d = "(init 0 500 100 100)\<lparr>mask_bomb := Some zero_mask\<rparr>"
  let ?e = "(init 0 0 100 100)\<lparr>mask_bomb := Some zero_mask\<rparr>"
  have a: "mask_bomb ?d = Some zero_mask" and b: "mask_bomb ?e = Some zero_mask"
    by simp_all
  have fd: "start_x ?d = 0" "start_y ?d = 500" "height ?d = 100"
    and fe: "start_x ?e = 0" "start_y ?e = 0" "height ?e = 100"
    by (simp_all add: init_def)
  have c: "rect_center (10, 45, 10, 10) = (15, 50)"
    by (simp add: rect_center_def)
  have h: "\<not> hazard blob_cv zero_mask r" for r
    by (simp add: hazard_def blob_cv_simps)
  have "band_reject ?d ''green'' (10, 45, 10, 10)"
    by (simp add: band_reject_def c fd ten_percent_def)
  then have 1: "detect_objects blob_cv ?d blob_mask ''green'' = Inr []"
    by (simp add: detect_objects_eq[OF a] blob_cv_simps admitted_def)
  have "\<not> band_reject ?e ''green'' (10, 45, 10, 10)"
    by (simp add: band_reject_def c fe ten_percent_def)
  then have 2: "detect_objects blob_cv ?e blob_mask ''green'' = Inr [(15, 53)]"
    by (simp add: detect_objects_eq[OF b] blob_cv_simps admitted_def h screen_point_def c fe)
  have 3: "\<not> in_margin_band 100 50"
    by (simp add: in_margin_band_def ten_percent_def)
  have 4: "detect_objects blob_cv ?d blob_mask ''pink'' = Inr [(15, 553)]"
    by (simp add: pink_no_band[OF a] blob_cv_simps h screen_point_def c fd)
  show ?thesis using 1 2 3 4 c by simp
qed

subsection \<open>The selection policy (C2)\<close>

lemma tiny_cv_simps:
  "findContours tiny_cv [[255]] = [(0, 0, 1, 1)]"
  "findContours tiny_cv [[0]] = []"
  "boundingRect tiny_cv r = r"
  "bgr2hsv tiny_cv p = p"
  by (simp_all add: tiny_cv_def box_cv_def)

lemma masks_of_simps:
  "mask_pink (masks_of cv d f) = Some (dilate (erode (inRange (map (map (bgr2hsv cv)) f) (lower_pink d) (upper_pink d))))"
  "mask_green (masks_of cv d f) = Some (dilate (erode (inRange (map (map (bgr2hsv cv)) f) (lower_green d) (upper_green d))))"
  "mask_bomb (masks_of cv d f) = Some (dilate (erode (inRange (map (map (bgr2hsv cv)) f) (lower_bomb d) (upper_bomb d))))"
  "start_x (masks_of cv d f) = start_x d"
  "start_y (masks_of cv d f) = start_y d"
  "height (masks_of cv d f) = height d"
  "width (masks_of cv d f) = width d"
  by (simp_all add: masks_of_def)

lemma detect_colors_nonempty:
  assumes "\<not> frame_empty f"
    and "mask_pink (masks_of cv d f) = Some mp"
    and "mask_green (masks_of cv d f) = Some mg"
    and "mask_bomb (masks_of cv d f) = Some mb"
  shows "detect_colors cv d f =
         Inr (masks_of cv d f, f,
              select (map (\<lambda>c. screen_point d (boundingRect cv c))
                        (filter (admitted cv (masks_of cv d f) mb ''pink'') (findContours cv mp)))
                     (map (\<lambda>c. screen_point d (boundingRect cv c))
                        (filter (admitted cv (masks_of cv d f) mb ''green'') (findContours cv mg))))"
proof -
  have sp: "screen_point (masks_of cv d f) = screen_point d"
    by (rule ext) (simp add: screen_point_def masks_of_simps)
  show ?thesis
    using assms
    by (simp add: detect_colors_def set_masks_nonempty detect_objects_eq[OF assms(4)] sp select_def
        split: list.splits)
qed

text \<open>
  C2. The selection policy of \<open>detect_colors\<close>. On every frame the library accepts,
  the masks are set, and the output is the policy applied to what the pink and the
  green extractor yield on them: the first pink position alone when there is one
  (whatever green yields), the whole green list otherwise. The policy returns
  \<open>(10, 20)\<close> for pink \<open>[(10, 20), (30, 40)]\<close> with green \<open>[(50, 60)]\<close>, and the whole list
  for pink \<open>[]\<close> with green \<open>[(50, 60), (70, 80)]\<close>.
\<close>

theorem selection_policy:
  assumes "\<not> frame_empty f"
  shows "(\<exists>d1 calls mp mg pink green.
            set_masks cv d f = Inr (d1, calls) \<and>
            mask_pink d1 = Some mp \<and> mask_green d1 = Some mg \<and>
            detect_objects cv d1 mp ''pink'' = Inr pink \<and>
            detect_objects cv d1 mg ''green'' = Inr green \<and>
            detect_colors cv d f = Inr (d1, f, select pink green) \<and>
            (pink \<noteq> [] \<longrightarrow> detect_colors cv d f = Inr (d1, f, Single (hd pink))) \<and>
            (pink = [] \<longrightarrow> detect_colors cv d f = Inr (d1, f, Many green)))
         \<and> select [(10, 20), (30, 40)] [(50, 60)] = Single (10, 20)
         \<and> select [] [(50, 60), (70, 80)] = Many [(50, 60), (70, 80)]"
proof -
  let ?d1 = "masks_of cv d f"
  obtain mp mg mb where m: "mask_pink ?d1 = Some mp" "mask_green ?d1 = Some mg"
    "mask_bomb ?d1 = Some mb"
    by (simp add: masks_of_simps)
  let ?pink = "map (\<lambda>c. screen_point ?d1 (boundingRect cv c))
                 (filter (admitted cv ?d1 mb ''pink'') (findContours cv mp))"
  let ?green = "map (\<lambda>c. screen_point ?d1 (boundingRect cv c))
                 (filter (admitted cv ?d1 mb ''green'') (findContours cv mg))"
  have p: "detect_objects cv ?d1 mp ''pink'' = Inr ?pink"
    and g: "detect_objects cv ?d1 mg ''green'' = Inr ?green"
    by (simp_all add: detect_objects_eq[OF m(3)])
  have sp: "screen_point ?d1 = screen_point d"
    by (rule ext) (simp add: screen_point_def masks_of_simps)
  have dc: "detect_colors cv d f = Inr (?d1, f, select ?pink ?green)"
    using detect_colors_nonempty[OF assms m] by (simp add: sp)
  have s1: "?pink \<noteq> [] \<longrightarrow> select ?pink ?green = Single (hd ?pink)"
    and s2: "?pink = [] \<longrightarrow> select ?pink ?green = Many ?green"
    by (simp_all add: select_def split: list.splits)
  have "set_masks cv d f = Inr (?d1, calls_of cv d f)"
    by (rule set_masks_nonempty[OF assms])
  with m p g dc s1 s2 have "\<exists>d1 calls mp mg pink green.
            set_masks cv d f = Inr (d1, calls) \<and>
            mask_pink d1 = Some mp \<and> mask_green d1 = Some mg \<and>
            detect_objects cv d1 mp ''pink'' = Inr pink \<and>
            detect_objects cv d1 mg ''green'' = Inr green \<and>
            detect_colors cv d f = Inr (d1, f, select pink green) \<and>
            (pink \<noteq> [] \<longrightarrow> detect_colors cv d f = Inr (d1, f, Single (hd pink))) \<and>
            (pink = [] \<longrightarrow> detect_colors cv d f = Inr (d1, f, Many green))"
    by (metis (no_types, lifting))
  then show ?thesis
    by (simp add: select_def)
qed

lemma erode_1x1: "erode [[v]] = [[v]]"
proof -
  have "v \<le> 255"
    using unsigned_less[of v, where ?'a = nat] by (simp add: word_le_nat_alt)
  then show ?thesis
    by (simp add: erode_def window_def nbrs_def min_def)
qed

lemma dilate_1x1: "dilate [[v]] = [[v]]"
  by (simp add: dilate_def window_def nbrs_def)

lemma tiny_pink_masks:
  "masks_of tiny_cv (init sx sy h w) [[pink_px]] =
   (init sx sy h w)\<lparr>mask_pink := Some [[255]], mask_green := Some [[0]], mask_bomb := Some [[0]]\<rparr>"
  by (simp add: masks_of_def init_def tiny_cv_simps inRange_def in_band_def pink_px_def
      erode_1x1 dilate_1x1)

lemma tiny_green_masks:
  "masks_of tiny_cv (init sx sy h w) [[green_px]] =
   (init sx sy h w)\<lparr>mask_pink := Some [[0]], mask_green := Some [[255]], mask_bomb := Some [[0]]\<rparr>"
  by (simp add: masks_of_def init_def tiny_cv_simps inRange_def in_band_def green_px_def
      erode_1x1 dilate_1x1)

lemma not_hazard_tiny: "\<not> hazard tiny_cv [[0]] r"
  by (simp add: hazard_def tiny_cv_simps)

theorem selection_policy_witness:
  "\<not> frame_empty [[pink_px]] \<and>
   detect_colors tiny_cv (init 10 17 1 1) [[pink_px]] =
     Inr (masks_of tiny_cv (init 10 17 1 1) [[pink_px]], [[pink_px]], Single (10, 20)) \<and>
   \<not> frame_empty [[green_px]] \<and>
   detect_colors tiny_cv (init 10 0 1 1) [[green_px]] =
     Inr (masks_of tiny_cv (init 10 0 1 1) [[green_px]], [[green_px]], Many [(10, 3)])"
proof -
  let ?d = "init 10 17 1 1"
  have h: "\<not> frame_empty [[pink_px]]"
    by (simp add: frame_empty_def)
  from selection_policy[OF h, of tiny_cv ?d]
  obtain d1 calls mp mg pink green where
    sm: "set_masks tiny_cv ?d [[pink_px]] = Inr (d1, calls)"
    and mp: "mask_pink d1 = Some mp"
    and p: "detect_objects tiny_cv d1 mp ''pink'' = Inr pink"
    and dc: "pink \<noteq> [] \<longrightarrow> detect_colors tiny_cv ?d [[pink_px]] = Inr (d1, [[pink_px]], Single (hd pink))"
    by blast
  from sm have d1: "d1 = masks_of tiny_cv ?d [[pink_px]]"
    by (simp add: set_masks_nonempty[OF h])
  have d1': "d1 = ?d\<lparr>mask_pink := Some [[255]], mask_green := Some [[0]], mask_bomb := Some [[0]]\<rparr>"
    by (simp only: d1 tiny_pink_masks)
  have mb: "mask_bomb d1 = Some [[0]]" and mp': "mp = [[255]]"
    and o: "start_x d1 = 10" "start_y d1 = 17"
    using mp by (simp_all add: d1' init_def)
  have "pink = [(10, 20)]"
    using p
    by (simp add: detect_objects_eq[OF mb] mp' tiny_cv_simps admitted_def not_hazard_tiny
        band_reject_def screen_point_def rect_center_def o)
  with dc d1 have 1: "detect_colors tiny_cv ?d [[pink_px]] =
      Inr (masks_of tiny_cv ?d [[pink_px]], [[pink_px]], Single (10, 20))"
    by simp
  let ?e = "init 10 0 1 1"
  have k: "\<not> frame_empty [[green_px]]"
    by (simp add: frame_empty_def)
  from selection_policy[OF k, of tiny_cv ?e]
  obtain e1 calls' np ng pink' green' where
    sm': "set_masks tiny_cv ?e [[green_px]] = Inr (e1, calls')"
    and np: "mask_pink e1 = Some np" and ng: "mask_green e1 = Some ng"
    and p': "detect_objects tiny_cv e1 np ''pink'' = Inr pink'"
    and g': "detect_objects tiny_cv e1 ng ''green'' = Inr green'"
    and dc': "pink' = [] \<longrightarrow> detect_colors tiny_cv ?e [[green_px]] = Inr (e1, [[green_px]], Many green')"
    by blast
  from sm' have e1: "e1 = masks_of tiny_cv ?e [[green_px]]"
    by (simp add: set_masks_nonempty[OF k])
  have e1': "e1 = ?e\<lparr>mask_pink := Some [[0]], mask_green := Some [[255]], mask_bomb := Some [[0]]\<rparr>"
    by (simp only: e1 tiny_green_masks)
  have nb: "mask_bomb e1 = Some [[0]]" and np': "np = [[0]]" and ng': "ng = [[255]]"
    and o': "start_x e1 = 10" "start_y e1 = 0" "height e1 = 1"
    using np ng by (simp_all add: e1' init_def)
  have "pink' = []"
    using p' by (simp add: detect_objects_eq[OF nb] np' tiny_cv_simps)
  moreover have "green' = [(10, 3)]"
    using g'
    by (simp add: detect_objects_eq[OF nb] ng' tiny_cv_simps admitted_def not_hazard_tiny
        band_reject_def screen_point_def rect_center_def o' ten_percent_def)
  ultimately have 2: "detect_colors tiny_cv ?e [[green_px]] =
      Inr (masks_of tiny_cv ?e [[green_px]], [[green_px]], Many [(10, 3)])"
    using dc' e1 by simp
  from h k 1 2 show ?thesis by simp
qed

subsection \<open>The hazard filter (C3)\<close>

lemma wide_blob_row: "wide_blob x0 ! 50 = replicate x0 0 @ replicate 10 255 @ replicate (290 - x0) 0"
  by (simp add: wide_blob_def nth_append)

lemma wide_cv_simps:
  "findContours wide_cv (wide_blob 10) = [(10, 45, 10, 10)]"
  "findContours wide_cv (wide_blob 60) = [(60, 45, 10, 10)]"
  "findContours wide_cv (wide_blob 160) = [(160, 45, 10, 10)]"
  "boundingRect wide_cv r = r"
  by (simp_all add: wide_cv_def box_cv_def wide_blob_row nth_append)

text \<open>
  C3. With the hazard mask set, \<open>is_bomb_near\<close> returns true exactly when the
  Euclidean distance from the candidate's centre to the centre of the bounding box of
  some hazard contour is below 100. For either colour name, \<open>detect_objects\<close> gives
  what it gives on the contours that are not near a hazard, and no position it emits
  is the translation of a centre less than 100 pixels from a hazard centre.
\<close>

theorem hazard_filter_is_absolute:
  assumes "mask_bomb d = Some mb"
  shows "is_bomb_near cv d x y w h =
           Inr (\<exists>b\<in>set (findContours cv mb).
                  euclid (rect_center (boundingRect cv b)) (rect_center (x, y, w, h)) < 100)
         \<and> detect_objects cv d m color_name =
             detect_loop cv d color_name
               (filter (\<lambda>c. \<not> hazard cv mb (boundingRect cv c)) (findContours cv m)) []
         \<and> (\<exists>ps. detect_objects cv d m color_name = Inr ps \<and>
               (\<forall>p\<in>set ps. \<not> (\<exists>b\<in>set (findContours cv mb).
                   euclid (rect_center (boundingRect cv b)) (fst p - start_x d, snd p - start_y d - 3) < 100)))"
proof -
  have hz: "hazard cv mb r \<longleftrightarrow>
            (\<exists>b\<in>set (findContours cv mb). euclid (rect_center (boundingRect cv b)) (rect_center r) < 100)" for r
    by (simp add: hazard_def bomb_loop_iff norm_lt_100_euclid)
  have 1: "is_bomb_near cv d x y w h =
           Inr (\<exists>b\<in>set (findContours cv mb).
                  euclid (rect_center (boundingRect cv b)) (rect_center (x, y, w, h)) < 100)"
    by (simp add: is_bomb_near_Some[OF assms] hz)
  have "filter (admitted cv d mb color_name) (filter (\<lambda>c. \<not> hazard cv mb (boundingRect cv c)) cs) =
        filter (admitted cv d mb color_name) cs" for cs
    by (induction cs) (auto simp: admitted_def)
  then have 2: "detect_objects cv d m color_name =
             detect_loop cv d color_name
               (filter (\<lambda>c. \<not> hazard cv mb (boundingRect cv c)) (findContours cv m)) []"
    by (simp add: detect_objects_eq[OF assms] detect_loop_eq[OF assms])
  have inv: "(fst (screen_point d r) - start_x d, snd (screen_point d r) - start_y d - 3) = rect_center r" for r
    by (simp add: screen_point_def split: prod.splits)
  have 3: "\<exists>ps. detect_objects cv d m color_name = Inr ps \<and>
               (\<forall>p\<in>set ps. \<not> (\<exists>b\<in>set (findContours cv mb).
                   euclid (rect_center (boundingRect cv b)) (fst p - start_x d, snd p - start_y d - 3) < 100))"
    by (auto simp: detect_objects_eq[OF assms] admitted_def hz inv)
  from 1 2 3 show ?thesis by blast
qed

theorem hazard_filter_is_absolute_witness:
  "mask_bomb ((init 0 0 100 300)\<lparr>mask_bomb := Some (wide_blob 10)\<rparr>) = Some (wide_blob 10) \<and>
   is_bomb_near wide_cv ((init 0 0 100 300)\<lparr>mask_bomb := Some (wide_blob 10)\<rparr>) 60 45 10 10 = Inr True \<and>
   is_bomb_near wide_cv ((init 0 0 100 300)\<lparr>mask_bomb := Some (wide_blob 10)\<rparr>) 160 45 10 10 = Inr False \<and>
   detect_objects wide_cv ((init 0 0 100 300)\<lparr>mask_bomb := Some (wide_blob 10)\<rparr>) (wide_blob 60) ''pink'' = Inr [] \<and>
   detect_objects wide_cv ((init 0 0 100 300)\<lparr>mask_bomb := Some (wide_blob 10)\<rparr>) (wide_blob 60) ''green'' = Inr [] \<and>
   detect_objects wide_cv ((init 0 0 100 300)\<lparr>mask_bomb := Some (wide_blob 10)\<rparr>) (wide_blob 160) ''pink'' = Inr [(165, 53)] \<and>
   euclid (15, 50) (65, 50) = 50 \<and> euclid (15, 50) (165, 50) = 150"
proof -
  let ?d = "(init 0 0 100 300)\<lparr>mask_bomb := Some (wide_blob 10)\<rparr>"
  have mb: "mask_bomb ?d = Some (wide_blob 10)"
    by simp
  have o: "start_x ?d = 0" "start_y ?d = 0" "height ?d = 100"
    by (simp_all add: init_def)
  have e: "euclid (15, 50) (65, 50) = 50" "euclid (15, 50) (165, 50) = 150"
    by (simp_all add: euclid_def real_sqrt_unique)
  have c: "rect_center (10, 45, 10, 10) = (15, 50)" "rect_center (60, 45, 10, 10) = (65, 50)"
    "rect_center (160, 45, 10, 10) = (165, 50)"
    by (simp_all add: rect_center_def)
  have hz: "hazard wide_cv (wide_blob 10) (60, 45, 10, 10)"
    "\<not> hazard wide_cv (wide_blob 10) (160, 45, 10, 10)"
    by (simp_all add: hazard_def wide_cv_simps c norm_lt_100_def)
  note t1 = hazard_filter_is_absolute[OF mb, of wide_cv 60 45 10 10 "wide_blob 60"]
  note t2 = hazard_filter_is_absolute[OF mb, of wide_cv 160 45 10 10 "wide_blob 160"]
  have 1: "is_bomb_near wide_cv ?d 60 45 10 10 = Inr True"
    using t1[of "''pink''"] by (simp add: wide_cv_simps c e)
  have 2: "is_bomb_near wide_cv ?d 160 45 10 10 = Inr False"
    using t2[of "''pink''"] by (simp add: wide_cv_simps c e)
  have 3: "detect_objects wide_cv ?d (wide_blob 60) color_name = Inr []" for color_name
    using t1[of color_name] hz by (simp add: wide_cv_simps)
  have 4: "detect_objects wide_cv ?d (wide_blob 160) ''pink'' = Inr [(165, 53)]"
    by (simp add: pink_no_band[OF mb] wide_cv_simps hz screen_point_def c o)
  from mb 1 2 3 4 e show ?thesis by simp
qed

subsection \<open>Translation to screen coordinates (C4)\<close>

text \<open>
  C4. With the hazard mask set, \<open>detect_objects\<close> emits, for each admitted contour in
  order, the centre of its bounding box \<open>(x, y, w, h)\<close> moved by the region's origin
  and three pixels down: \<open>(x + w div 2 + start_x, y + h div 2 + start_y + 3)\<close>. A mask
  with one contour and a hazard mask with none yield exactly that one position for
  \<open>pink\<close>.
\<close>

theorem detection_is_translated_centre:
  assumes "mask_bomb d = Some mb"
  shows "detect_objects cv d m color_name =
           Inr (map (\<lambda>c. screen_point d (boundingRect cv c))
                  (filter (admitted cv d mb color_name) (findContours cv m)))
         \<and> screen_point d (x, y, w, h) = (x + w div 2 + start_x d, y + h div 2 + start_y d + 3)
         \<and> (findContours cv m = [c] \<and> findContours cv mb = [] \<longrightarrow>
              detect_objects cv d m ''pink'' = Inr [screen_point d (boundingRect cv c)])"
proof -
  have 1: "screen_point d (x, y, w, h) = (x + w div 2 + start_x d, y + h div 2 + start_y d + 3)"
    by (simp add: screen_point_def rect_center_def)
  have 2: "detect_objects cv d m ''pink'' = Inr [screen_point d (boundingRect cv c)]"
    if "findContours cv m = [c]" "findContours cv mb = []"
    using that by (simp add: pink_no_band[OF assms] hazard_def)
  from 1 2 detect_objects_eq[OF assms] show ?thesis by blast
qed

theorem detection_is_translated_centre_witness:
  "mask_bomb ((init 10 20 1 1)\<lparr>mask_bomb := Some [[0]]\<rparr>) = Some [[0]] \<and>
   findContours tiny_cv [[255]] = [(0, 0, 1, 1)] \<and> findContours tiny_cv [[0]] = [] \<and>
   detect_objects tiny_cv ((init 10 20 1 1)\<lparr>mask_bomb := Some [[0]]\<rparr>) [[255]] ''pink'' = Inr [(10, 23)]"
proof -
  let ?d = "(init 10 20 1 1)\<lparr>mask_bomb := Some [[0]]\<rparr>"
  have mb: "mask_bomb ?d = Some [[0]]"
    by simp
  have o: "start_x ?d = 10" "start_y ?d = 20"
    by (simp_all add: init_def)
  note t = detection_is_translated_centre[OF mb, of tiny_cv "[[255]]" "''pink''" 0 0 1 1 "(0, 0, 1, 1)"]
  from t have "findContours tiny_cv [[255]] = [(0, 0, 1, 1)] \<and> findContours tiny_cv [[0]] = [] \<longrightarrow>
      detect_objects tiny_cv ?d [[255]] ''pink'' = Inr [screen_point ?d (boundingRect tiny_cv (0, 0, 1, 1))]"
    by blast
  then have "detect_objects tiny_cv ?d [[255]] ''pink'' = Inr [screen_point ?d (0, 0, 1, 1)]"
    by (simp add: tiny_cv_simps)
  moreover have "screen_point ?d (0, 0, 1, 1) = (10, 23)"
    by (simp add: screen_point_def rect_center_def o)
  ultimately show ?thesis
    using mb by (simp add: tiny_cv_simps)
qed

subsection \<open>Detections lie in the region (C9)\<close>

lemma center_inside:
  fixes x w :: int
  assumes "0 \<le> x" "1 \<le> w" "x + w \<le> n"
  shows "0 \<le> x + w div 2" "x + w div 2 \<le> n - 1"
  using assms by auto

text \<open>
  C9. When the mask has the region's dimensions and every bounding box of its
  contours lies inside it, every position \<open>detect_objects\<close> emits satisfies
  \<open>start_x \<le> screen_x \<le> start_x + width - 1\<close> and
  \<open>start_y + 3 \<le> screen_y \<le> start_y + height + 2\<close>.
\<close>

theorem detections_inside_region:
  assumes "mask_bomb d = Some mb"
    and "rows m = height d" and "cols m = width d"
    and "contours_inside cv m"
  shows "\<exists>ps. detect_objects cv d m color_name = Inr ps \<and>
           (\<forall>p\<in>set ps. start_x d \<le> fst p \<and> fst p \<le> start_x d + width d - 1 \<and>
                        start_y d + 3 \<le> snd p \<and> snd p \<le> start_y d + height d + 2)"
proof -
  have "start_x d \<le> fst (screen_point d (boundingRect cv c)) \<and>
        fst (screen_point d (boundingRect cv c)) \<le> start_x d + width d - 1 \<and>
        start_y d + 3 \<le> snd (screen_point d (boundingRect cv c)) \<and>
        snd (screen_point d (boundingRect cv c)) \<le> start_y d + height d + 2"
    if c: "c \<in> set (findContours cv m)" for c
  proof -
    obtain x y w h where r: "boundingRect cv c = (x, y, w, h)"
      by (cases "boundingRect cv c") auto
    from assms(4) c r have b: "0 \<le> x" "0 \<le> y" "1 \<le> w" "1 \<le> h" "x + w \<le> cols m" "y + h \<le> rows m"
      by (auto simp: contours_inside_def list_all_iff)
    from center_inside[OF b(1) b(3) b(5)] center_inside[OF b(2) b(4) b(6)]
    show ?thesis
      by (simp add: r screen_point_def rect_center_def assms(2,3))
  qed
  then show ?thesis
    by (auto simp: detect_objects_eq[OF assms(1)])
qed

theorem detections_inside_region_witness:
  "mask_bomb ((init 5 7 1 1)\<lparr>mask_bomb := Some [[0]]\<rparr>) = Some [[0]] \<and>
   rows [[255 :: 8 word]] = height ((init 5 7 1 1)\<lparr>mask_bomb := Some [[0]]\<rparr>) \<and>
   cols [[255 :: 8 word]] = width ((init 5 7 1 1)\<lparr>mask_bomb := Some [[0]]\<rparr>) \<and>
   contours_inside tiny_cv [[255]] \<and>
   detect_objects tiny_cv ((init 5 7 1 1)\<lparr>mask_bomb := Some [[0]]\<rparr>) [[255]] ''pink'' = Inr [(5, 10)] \<and>
   (5::int) \<le> 5 \<and> (5::int) \<le> 5 + 1 - 1 \<and> (7::int) + 3 \<le> 10 \<and> (10::int) \<le> 7 + 1 + 2"
proof -
  let ?d = "(init 5 7 1 1)\<lparr>mask_bomb := Some [[0]]\<rparr>"
  have mb: "mask_bomb ?d = Some [[0]]"
    by simp
  have r: "rows [[255 :: 8 word]] = height ?d" and c: "cols [[255 :: 8 word]] = width ?d"
    by (simp_all add: rows_def cols_def init_def)
  have ci: "contours_inside tiny_cv [[255]]"
    by (simp add: contours_inside_def tiny_cv_simps rows_def cols_def)
  have o: "start_x ?d = 5" "start_y ?d = 7"
    by (simp_all add: init_def)
  have ev: "detect_objects tiny_cv ?d [[255]] ''pink'' = Inr [(5, 10)]"
    by (simp add: pink_no_band[OF mb] tiny_cv_simps not_hazard_tiny screen_point_def rect_center_def o)
  from detections_inside_region[OF mb r c ci, of "''pink''"] ev mb r c ci
  show ?thesis by simp
qed

subsection \<open>Hazard centres computed once (C7)\<close>

lemma is_bomb_near_pre_hazard:
  "is_bomb_near_pre (bomb_centers cv mb) x y w h = hazard cv mb (x, y, w, h)"
  by (auto simp: is_bomb_near_pre_def bomb_centers_def hazard_def bomb_loop_iff list_ex_iff
      rect_center_def split: prod.splits)

lemma detect_loop_pre_Cons:
  "detect_loop_pre cv d (bomb_centers cv mb) color_name (c # cs) acc =
   detect_loop_pre cv d (bomb_centers cv mb) color_name cs
     (if admitted cv d mb color_name c then acc @ [screen_point d (boundingRect cv c)] else acc)"
proof -
  obtain x y w h where r: "boundingRect cv c = (x, y, w, h)"
    by (cases "boundingRect cv c") auto
  show ?thesis
    by (simp add: r is_bomb_near_pre_hazard admitted_def band_reject_def screen_point_def
        rect_center_def Let_def)
qed

lemma detect_loop_pre_eq:
  "detect_loop_pre cv d (bomb_centers cv mb) color_name cs acc =
   acc @ map (\<lambda>c. screen_point d (boundingRect cv c)) (filter (admitted cv d mb color_name) cs)"
proof (induction cs arbitrary: acc)
  case Nil
  then show ?case by simp
next
  case (Cons c cs)
  show ?case
    by (simp only: detect_loop_pre_Cons Cons.IH) simp
qed

lemma detect_objects_pre_eq:
  assumes "mask_bomb d = Some mb"
  shows "detect_objects cv d m color_name = Inr (detect_objects_pre cv d (bomb_centers cv mb) m color_name)"
  by (simp add: detect_objects_eq[OF assms] detect_objects_pre_def detect_loop_pre_eq)

lemma detect_colors_empty: "frame_empty f \<Longrightarrow> detect_colors cv d f = Inl CvError"
  by (simp add: detect_colors_def set_masks_empty)

text \<open>
  C7. Computing the hazard centres once per cycle and testing every candidate
  against that list gives the same result as \<open>detect_colors\<close>, which extracts the
  hazard contours again for every candidate: the same error, or the same state,
  frame and positions.
\<close>

theorem hazard_centres_once_per_cycle:
  "detect_colors_pre cv d f = detect_colors cv d f"
proof (cases "frame_empty f")
  case True
  then show ?thesis
    by (simp add: detect_colors_pre_def detect_colors_empty set_masks_empty)
next
  case False
  let ?d1 = "masks_of cv d f"
  obtain mp mg mb where m: "mask_pink ?d1 = Some mp" "mask_green ?d1 = Some mg"
    "mask_bomb ?d1 = Some mb"
    by (simp add: masks_of_simps)
  let ?pink = "map (\<lambda>c. screen_point ?d1 (boundingRect cv c))
                 (filter (admitted cv ?d1 mb ''pink'') (findContours cv mp))"
  let ?green = "map (\<lambda>c. screen_point ?d1 (boundingRect cv c))
                 (filter (admitted cv ?d1 mb ''green'') (findContours cv mg))"
  have sp: "screen_point ?d1 = screen_point d"
    by (rule ext) (simp add: screen_point_def masks_of_simps)
  have p: "detect_objects_pre cv ?d1 (bomb_centers cv mb) mp ''pink'' = ?pink"
    and g: "detect_objects_pre cv ?d1 (bomb_centers cv mb) mg ''green'' = ?green"
    by (simp_all add: detect_objects_pre_def detect_loop_pre_eq)
  have "detect_colors_pre cv d f = Inr (?d1, f, select ?pink ?green)"
    unfolding detect_colors_pre_def set_masks_nonempty[OF False]
    by (simp only: m p g Let_def select_def sum.case prod.case option.case split: list.splits)
       simp
  moreover have "detect_colors cv d f = Inr (?d1, f, select ?pink ?green)"
    using detect_colors_nonempty[OF False m] by (simp only: sp)
  ultimately show ?thesis by simp
qed

subsection \<open>No state carried between cycles (C6)\<close>

lemma masks_of_stale:
  "masks_of cv (d\<lparr>mask_pink := a, mask_green := b, mask_bomb := c\<rparr>) f = masks_of cv d f"
  by (simp add: masks_of_def)

lemma masks_of_idem: "masks_of cv (masks_of cv d f) f = masks_of cv d f"
  by (simp add: masks_of_def)

lemma set_masks_stale:
  "set_masks cv (d\<lparr>mask_pink := a, mask_green := b, mask_bomb := c\<rparr>) f = set_masks cv d f"
  by (cases "frame_empty f")
     (simp_all add: set_masks_empty set_masks_nonempty masks_of_stale calls_of_stale)

lemma set_masks_idem:
  "\<not> frame_empty f \<Longrightarrow> set_masks cv (masks_of cv d f) f = set_masks cv d f"
  by (simp add: set_masks_nonempty masks_of_idem calls_of_idem)

lemma detect_colors_state:
  assumes "detect_colors cv d f = Inr (d', out)"
  shows "\<not> frame_empty f \<and> d' = masks_of cv d f"
proof (cases "frame_empty f")
  case True
  with assms show ?thesis
    by (simp add: detect_colors_empty)
next
  case False
  obtain mp mg mb where m: "mask_pink (masks_of cv d f) = Some mp"
    "mask_green (masks_of cv d f) = Some mg" "mask_bomb (masks_of cv d f) = Some mb"
    by (simp add: masks_of_simps)
  from assms False show ?thesis
    by (simp add: detect_colors_nonempty[OF False m])
qed

text \<open>
  C6. The result of \<open>detect_colors\<close> does not depend on the masks a previous cycle
  left in the object, and running it again on the state it returns, with the same
  frame, returns the same state and the same output; it fails only on an empty frame.
\<close>

theorem detect_colors_no_state_drift:
  "detect_colors cv (d\<lparr>mask_pink := a, mask_green := b, mask_bomb := c\<rparr>) f = detect_colors cv d f
   \<and> (case detect_colors cv d f of
         Inl e \<Rightarrow> frame_empty f
       | Inr (d', out) \<Rightarrow> detect_colors cv d' f = Inr (d', out))"
proof -
  have 1: "detect_colors cv (d\<lparr>mask_pink := a, mask_green := b, mask_bomb := c\<rparr>) f = detect_colors cv d f"
    by (simp only: detect_colors_def set_masks_stale)
  have 2: "detect_colors cv d' f = Inr (d', out)" if h: "detect_colors cv d f = Inr (d', out)" for d' out
  proof -
    from detect_colors_state[OF h] have ne: "\<not> frame_empty f" and d': "d' = masks_of cv d f"
      by simp_all
    have "detect_colors cv d' f = detect_colors cv d f"
      by (simp only: detect_colors_def d' set_masks_idem[OF ne])
    with h show ?thesis by simp
  qed
  have 3: "frame_empty f" if h: "detect_colors cv d f = Inl e" for e
  proof (rule ccontr)
    assume ne: "\<not> frame_empty f"
    obtain mp mg mb where m: "mask_pink (masks_of cv d f) = Some mp"
      "mask_green (masks_of cv d f) = Some mg" "mask_bomb (masks_of cv d f) = Some mb"
      by (simp add: masks_of_simps)
    from h show False
      by (simp add: detect_colors_nonempty[OF ne m])
  qed
  show ?thesis
  proof (cases "detect_colors cv d f")
    case (Inl e)
    then have "frame_empty f" by (rule 3)
    with Inl 1 show ?thesis by simp
  next
    case (Inr r)
    obtain d' out where r: "r = (d', out)" by (cases r) auto
    from Inr r have "detect_colors cv d' f = Inr (d', out)"
      by (intro 2) simp
    with Inr r 1 show ?thesis by simp
  qed
qed

subsection \<open>The coordinate file (C5)\<close>

lemma digits_value_nonneg_aux:
  "list_all is_decimal_char s \<Longrightarrow> 0 \<le> n \<Longrightarrow>
   0 \<le> foldl (\<lambda>n c. 10 * n + (int (of_char c) - 48)) n s"
  by (induction s arbitrary: n) (auto simp: is_decimal_char_def)

lemma digits_value_nonneg: "decimal_string s \<Longrightarrow> 0 \<le> digits_value s"
  by (simp add: decimal_string_def digits_value_def digits_value_nonneg_aux)

lemma py_int_Inr: "py_int s = Inr n \<longleftrightarrow> decimal_string s \<and> n = digits_value s"
  by (auto simp: py_int_def decimal_string_def)

lemma is_digit_char_ascii: "(of_char c :: nat) < 128 \<Longrightarrow> is_digit_char c = is_decimal_char c"
  by (auto simp: is_digit_char_def)

lemma isdigit_ascii: "ascii_string s \<Longrightarrow> isdigit s \<longleftrightarrow> decimal_string s"
proof -
  assume "ascii_string s"
  then have "list_all is_digit_char s = list_all is_decimal_char s"
    by (induction s) (simp_all add: ascii_string_def is_digit_char_ascii)
  then show ?thesis
    by (simp add: isdigit_def decimal_string_def)
qed

lemma decimal_isdigit: "decimal_string s \<Longrightarrow> isdigit s"
  by (auto simp: isdigit_def decimal_string_def is_digit_char_def list_all_iff)

lemma config_Inr: "config repo key = Inr v \<longleftrightarrow> repo key = Some v"
  by (simp add: config_def split: option.splits)

lemma get_coordinates_missing: "get_coordinates None = Inr None"
  by (simp add: get_coordinates_def check_directory_def)

lemma get_coordinates_present:
  assumes "repo ''start_x'' = Some sx" "repo ''end_x'' = Some ex"
    "repo ''start_y'' = Some sy" "repo ''end_y'' = Some ey"
  shows "get_coordinates (Some repo) =
     (if \<not> isdigit sx \<or> \<not> isdigit ex \<or> \<not> isdigit sy \<or> \<not> isdigit ey then Inr None
      else if decimal_string sx \<and> decimal_string ex \<and> decimal_string sy \<and> decimal_string ey
      then Inr (Some (digits_value sx, digits_value sy,
                      digits_value ex - digits_value sx, digits_value ey - digits_value sy))
      else Inl ValueError)"
  using assms
  by (simp add: get_coordinates_def check_directory_def config_def check_coordinates_def
      py_int_def decimal_string_def Let_def)

lemma get_coordinates_Some:
  assumes "get_coordinates file = Inr (Some t)"
  shows "\<exists>repo sx ex sy ey. file = Some repo \<and>
           repo ''start_x'' = Some sx \<and> repo ''end_x'' = Some ex \<and>
           repo ''start_y'' = Some sy \<and> repo ''end_y'' = Some ey \<and>
           decimal_string sx \<and> decimal_string ex \<and> decimal_string sy \<and> decimal_string ey \<and>
           t = (digits_value sx, digits_value sy,
                digits_value ex - digits_value sx, digits_value ey - digits_value sy)"
proof -
  from assms obtain repo where f: "file = Some repo"
    by (cases "file") (simp_all add: get_coordinates_missing)
  from assms f obtain sx where sx: "repo ''start_x'' = Some sx"
    by (cases "repo ''start_x''") (simp_all add: get_coordinates_def check_directory_def config_def)
  from assms f sx obtain ex where ex: "repo ''end_x'' = Some ex"
    by (cases "repo ''end_x''") (simp_all add: get_coordinates_def check_directory_def config_def)
  from assms f sx ex obtain sy where sy: "repo ''start_y'' = Some sy"
    by (cases "repo ''start_y''") (simp_all add: get_coordinates_def check_directory_def config_def)
  from assms f sx ex sy obtain ey where ey: "repo ''end_y'' = Some ey"
    by (cases "repo ''end_y''") (simp_all add: get_coordinates_def check_directory_def config_def)
  from assms[unfolded f get_coordinates_present[OF sx ex sy ey]]
  have "decimal_string sx \<and> decimal_string ex \<and> decimal_string sy \<and> decimal_string ey \<and>
        t = (digits_value sx, digits_value sy,
             digits_value ex - digits_value sx, digits_value ey - digits_value sy)"
    by (simp split: if_splits)
  with f sx ex sy ey show ?thesis by blast
qed

text \<open>
  The claim C5 as stated fails: a file whose \<open>end_x\<close> is smaller than its \<open>start_x\<close>
  passes every check, and the returned width is negative.
\<close>

theorem get_coordinates_does_not_check_the_size:
  "get_coordinates (Some (coordinate_file ''10'' ''5'' ''0'' ''7'')) = Inr (Some (10, 0, - 5, 7))
   \<and> \<not> (0 :: int) < - 5"
  by (simp add: get_coordinates_def coordinate_file_def check_directory_def config_def
      check_coordinates_def isdigit_def is_digit_char_def is_decimal_char_def py_int_def
      digits_value_def)

text \<open>
  A superscript digit passes \<open>isdigit\<close> and is refused by \<open>int\<close>: the exception escapes.
\<close>

lemma get_coordinates_superscript:
  "get_coordinates (Some (coordinate_file [CHR 0xB2] ''5'' ''0'' ''7'')) = Inl ValueError"
  by (simp add: get_coordinates_def coordinate_file_def check_directory_def config_def
      check_coordinates_def isdigit_def is_digit_char_def is_decimal_char_def py_int_def
      digits_value_def)

text \<open>
  C5, amended. \<open>get_coordinates\<close> returns \<open>None\<close> when the file is missing, and when
  the four keys are present and one of the values fails \<open>str.isdigit\<close>, as every ASCII
  string that is not a non-empty string of decimal digits does. Whenever it returns
  a tuple \<open>(start_x, start_y, width, height)\<close>, the four values of the file are
  non-empty strings of decimal digits, \<open>start_x\<close>, \<open>start_y\<close>, \<open>end_x\<close> and \<open>end_y\<close> are
  the non-negative integers they denote, \<open>width = end_x - start_x\<close> and
  \<open>height = end_y - start_y\<close>; the sign of width and height is not checked.
\<close>

theorem get_coordinates_validates_digits_only:
  "get_coordinates None = Inr None
   \<and> (repo ''start_x'' = Some sx \<and> repo ''end_x'' = Some ex \<and>
      repo ''start_y'' = Some sy \<and> repo ''end_y'' = Some ey \<and>
      (\<not> isdigit sx \<or> \<not> isdigit ex \<or> \<not> isdigit sy \<or> \<not> isdigit ey)
      \<longrightarrow> get_coordinates (Some repo) = Inr None)
   \<and> (ascii_string s \<and> \<not> decimal_string s \<longrightarrow> \<not> isdigit s)
   \<and> (get_coordinates file = Inr (Some (x, y, w, h)) \<longrightarrow>
        (\<exists>r fsx fex fsy fey. file = Some r \<and>
           r ''start_x'' = Some fsx \<and> r ''end_x'' = Some fex \<and>
           r ''start_y'' = Some fsy \<and> r ''end_y'' = Some fey \<and>
           decimal_string fsx \<and> decimal_string fex \<and> decimal_string fsy \<and> decimal_string fey \<and>
           x = digits_value fsx \<and> y = digits_value fsy \<and>
           w = digits_value fex - x \<and> h = digits_value fey - y \<and>
           0 \<le> x \<and> 0 \<le> y \<and> 0 \<le> digits_value fex \<and> 0 \<le> digits_value fey))"
proof -
  have 2: "get_coordinates (Some repo) = Inr None"
    if "repo ''start_x'' = Some sx" "repo ''end_x'' = Some ex"
      "repo ''start_y'' = Some sy" "repo ''end_y'' = Some ey"
      "\<not> isdigit sx \<or> \<not> isdigit ex \<or> \<not> isdigit sy \<or> \<not> isdigit ey"
    using that(5) by (simp add: get_coordinates_present[OF that(1-4)])
  have 3: "\<not> isdigit s" if "ascii_string s" "\<not> decimal_string s"
    using that by (simp add: isdigit_ascii)
  have 4: "\<exists>r fsx fex fsy fey. file = Some r \<and>
           r ''start_x'' = Some fsx \<and> r ''end_x'' = Some fex \<and>
           r ''start_y'' = Some fsy \<and> r ''end_y'' = Some fey \<and>
           decimal_string fsx \<and> decimal_string fex \<and> decimal_string fsy \<and> decimal_string fey \<and>
           x = digits_value fsx \<and> y = digits_value fsy \<and>
           w = digits_value fex - x \<and> h = digits_value fey - y \<and>
           0 \<le> x \<and> 0 \<le> y \<and> 0 \<le> digits_value fex \<and> 0 \<le> digits_value fey"
    if "get_coordinates file = Inr (Some (x, y, w, h))"
  proof -
    from get_coordinates_Some[OF that] obtain repo' fsx fex fsy fey where
      f: "file = Some repo'" and k: "repo' ''start_x'' = Some fsx" "repo' ''end_x'' = Some fex"
        "repo' ''start_y'' = Some fsy" "repo' ''end_y'' = Some fey"
      and dd: "decimal_string fsx" "decimal_string fex" "decimal_string fsy" "decimal_string fey"
      and t: "(x, y, w, h) = (digits_value fsx, digits_value fsy,
                digits_value fex - digits_value fsx, digits_value fey - digits_value fsy)"
      by blast
    from dd have "0 \<le> digits_value fsx" "0 \<le> digits_value fex" "0 \<le> digits_value fsy"
      "0 \<le> digits_value fey"
      by (simp_all add: digits_value_nonneg)
    with f k dd t show ?thesis by auto
  qed
  from get_coordinates_missing 2 3 4 show ?thesis by blast
qed

theorem get_coordinates_validates_digits_only_witness:
  "coordinate_file ''abc'' ''5'' ''0'' ''7'' ''start_x'' = Some ''abc'' \<and>
   coordinate_file ''abc'' ''5'' ''0'' ''7'' ''end_x'' = Some ''5'' \<and>
   coordinate_file ''abc'' ''5'' ''0'' ''7'' ''start_y'' = Some ''0'' \<and>
   coordinate_file ''abc'' ''5'' ''0'' ''7'' ''end_y'' = Some ''7'' \<and>
   ascii_string ''abc'' \<and> \<not> decimal_string ''abc'' \<and> \<not> isdigit ''abc'' \<and>
   get_coordinates (Some (coordinate_file ''abc'' ''5'' ''0'' ''7'')) = Inr None \<and>
   get_coordinates (Some (coordinate_file ''0'' ''100'' ''20'' ''90'')) = Inr (Some (0, 20, 100, 70)) \<and>
   decimal_string ''100'' \<and> digits_value ''100'' = 100"
proof -
  let ?bad = "coordinate_file ''abc'' ''5'' ''0'' ''7''"
  let ?good = "Some (coordinate_file ''0'' ''100'' ''20'' ''90'')"
  have k: "?bad ''start_x'' = Some ''abc''" "?bad ''end_x'' = Some ''5''"
    "?bad ''start_y'' = Some ''0''" "?bad ''end_y'' = Some ''7''"
    by (simp_all add: coordinate_file_def)
  have a: "ascii_string ''abc''" and nd: "\<not> decimal_string ''abc''"
    by (simp_all add: ascii_string_def decimal_string_def is_decimal_char_def)
  have g: "get_coordinates ?good = Inr (Some (0, 20, 100, 70))"
    by (simp add: get_coordinates_def coordinate_file_def check_directory_def config_def
      check_coordinates_def isdigit_def is_digit_char_def is_decimal_char_def py_int_def
      digits_value_def)
  have dv: "decimal_string ''100''" "digits_value ''100'' = 100"
    by (simp_all add: decimal_string_def is_decimal_char_def digits_value_def)
  note t = get_coordinates_validates_digits_only[of ?bad "''abc''" "''5''" "''0''" "''7''" "''abc''"
      ?good 0 20 100 70]
  from t a nd have ni: "\<not> isdigit ''abc''"
    by blast
  from t k ni have "get_coordinates (Some ?bad) = Inr None"
    by blast
  with k a nd ni g dv show ?thesis
    by simp
qed

subsection \<open>The colour mask builder (C8)\<close>













subsection \<open>The frame is returned as it came (C10)\<close>

lemma kept_refl: "kept a h h"
  by (simp add: kept_def)

lemma kept_trans: "kept a h0 h \<Longrightarrow> kept a h h' \<Longrightarrow> kept a h0 h'"
  by (simp add: kept_def)

lemma kept_less: "a < length h0 \<Longrightarrow> kept a h0 h \<Longrightarrow> a < length h"
  by (simp add: kept_def)

lemma post_return: "kept a h0 h \<Longrightarrow> Q v \<Longrightarrow> post a h0 Q (h, Inr v)"
  by (simp add: post_def)

lemma then_post:
  assumes "post a h0 P r"
    and "\<And>h v. kept a h0 h \<Longrightarrow> P v \<Longrightarrow> post a h0 Q (k h v)"
  shows "post a h0 Q (then_st r k)"
proof -
  obtain h1 x where r: "r = (h1, x)"
    by (cases r) auto
  show ?thesis
  proof (cases x)
    case (Inl e)
    with assms(1) r show ?thesis
      by (simp add: post_def then_st_def)
  next
    case (Inr v)
    with assms(1) r have "kept a h0 h1" and "P v"
      by (simp_all add: post_def)
    then have "post a h0 Q (k h1 v)"
      by (rule assms(2))
    with r Inr show ?thesis
      by (simp add: then_st_def)
  qed
qed

lemma attr_post: "kept a h0 h \<Longrightarrow> post a h0 (\<lambda>x. v = Some x) (attr v h)"
  by (simp add: post_def attr_def split: option.splits)

lemma allocates_post:
  assumes "allocates op" and "a < length h0" and "kept a h0 h"
  shows "post a h0 (\<lambda>dst. a < dst) (op h src)"
proof -
  obtain h' r where o: "op h src = (h', r)"
    by (cases "op h src") auto
  from assms(1)[unfolded allocates_def, THEN spec, THEN spec, of h src] o have t: "take (length h) h' = h"
    and f: "case r of Inl e \<Rightarrow> True | Inr dst \<Rightarrow> length h \<le> dst \<and> dst < length h'"
    by simp_all
  from assms(2,3) have al: "a < length h"
    by (rule kept_less)
  from arg_cong[OF t, of length] have len: "length h \<le> length h'"
    by simp
  from al have "take (length h) h' ! a = h' ! a"
    by simp
  with t have "h' ! a = h ! a"
    by simp
  with len have "kept a h h'"
    by (simp add: kept_def)
  with assms(3) have "kept a h0 h'"
    by (rule kept_trans)
  with f al show ?thesis
    by (auto simp: post_def o split: sum.splits)
qed

lemma find_post:
  assumes "writes_source_only fc" and "a < length h0" and "kept a h0 h" and "a \<noteq> src"
  shows "post a h0 (\<lambda>_. True) (fc h src)"
proof -
  obtain h' r where o: "fc h src = (h', r)"
    by (cases "fc h src") auto
  from assms(2,3) have al: "a < length h"
    by (rule kept_less)
  from assms(1)[unfolded writes_source_only_def, THEN spec, THEN spec, of h src] o have "length h \<le> length h' \<and> (\<forall>i<length h. i \<noteq> src \<longrightarrow> h' ! i = h ! i)"
    by simp
  with al assms(4) have "kept a h h'"
    by (simp add: kept_def)
  with assms(3) have "kept a h0 h'"
    by (rule kept_trans)
  then show ?thesis
    by (simp add: post_def o split: sum.splits)
qed

lemma contractD:
  assumes "cvlib_contract lib"
  shows "allocates (lib_cvtColor lib)" "allocates (\<lambda>h src. lib_inRange lib h src lo hi)"
    "allocates (lib_erode lib)" "allocates (lib_dilate lib)"
    "writes_source_only (lib_findContours lib)"
  using assms by (simp_all add: cvlib_contract_def del: split_paired_All)

lemma modify_masks_post:
  assumes c: "cvlib_contract lib" and a: "a < length h0" and k: "kept a h0 h"
  shows "post a h0 (refs_above a) (modify_masks_st lib d h)"
  unfolding modify_masks_st_def Let_def
  apply (rule then_post[OF attr_post[OF k]])
  apply (rule then_post[OF allocates_post[OF contractD(3)[OF c] a]], assumption)
  apply (rule then_post[OF allocates_post[OF contractD(4)[OF c] a]], assumption)
  apply (rule then_post[OF attr_post], assumption)
  apply (rule then_post[OF allocates_post[OF contractD(3)[OF c] a]], assumption)
  apply (rule then_post[OF allocates_post[OF contractD(4)[OF c] a]], assumption)
  apply (rule then_post[OF attr_post], assumption)
  apply (rule then_post[OF allocates_post[OF contractD(3)[OF c] a]], assumption)
  apply (rule then_post[OF allocates_post[OF contractD(4)[OF c] a]], assumption)
  apply (rule post_return, assumption)
  apply (simp add: refs_above_def)
  done

lemma set_masks_post:
  assumes c: "cvlib_contract lib" and a: "a < length h0" and k: "kept a h0 h"
  shows "post a h0 (refs_above a) (set_masks_st lib d h frame)"
  unfolding set_masks_st_def Let_def
  apply (rule then_post[OF allocates_post[OF contractD(1)[OF c] a k]])
  apply (rule then_post[OF allocates_post[OF contractD(2)[OF c] a]], assumption)
  apply (rule then_post[OF allocates_post[OF contractD(2)[OF c] a]], assumption)
  apply (rule then_post[OF allocates_post[OF contractD(2)[OF c] a]], assumption)
  apply (rule modify_masks_post[OF c a], assumption)
  done

lemma is_bomb_near_post:
  assumes c: "cvlib_contract lib" and a: "a < length h0" and k: "kept a h0 h"
    and r: "refs_above a d"
  shows "post a h0 (\<lambda>_. True) (is_bomb_near_st lib d h x y w ht)"
  unfolding is_bomb_near_st_def Let_def
  apply (rule then_post[OF attr_post[OF k]])
  apply (rule then_post[OF find_post[OF contractD(5)[OF c] a]], assumption)
  using r apply (simp add: refs_above_def)
  apply (rule post_return, assumption, simp)
  done

lemma detect_loop_post:
  assumes c: "cvlib_contract lib" and a: "a < length h0" and r: "refs_above a d"
  shows "kept a h0 h \<Longrightarrow> post a h0 (\<lambda>_. True) (detect_loop_st lib d color_name h cs acc)"
proof (induction cs arbitrary: h acc)
  case Nil
  then show ?case by (simp add: post_def)
next
  case (Cons cnt cs)
  obtain x y w ht where b: "lib_boundingRect lib cnt = (x, y, w, ht)"
    by (cases "lib_boundingRect lib cnt") auto
  obtain h1 res where n: "is_bomb_near_st lib d h x y w ht = (h1, res)"
    by (cases "is_bomb_near_st lib d h x y w ht") auto
  from is_bomb_near_post[OF c a Cons.prems r, of x y w ht] n have k1: "kept a h0 h1"
    by (simp add: post_def)
  show ?case
  proof (cases res)
    case (Inl e)
    with k1 show ?thesis by (simp add: b n post_def)
  next
    case (Inr near)
    with Cons.IH[OF k1] show ?thesis
      by (auto simp: b n Let_def)
  qed
qed

lemma detect_objects_post:
  assumes c: "cvlib_contract lib" and a: "a < length h0" and k: "kept a h0 h"
    and r: "refs_above a d" and m: "a < m"
  shows "post a h0 (\<lambda>_. True) (detect_objects_st lib d h m color_name)"
  unfolding detect_objects_st_def
  apply (rule then_post[OF find_post[OF contractD(5)[OF c] a k]])
  using m apply simp
  apply (rule detect_loop_post[OF c a r], assumption)
  done

lemma refs_aboveD:
  assumes "refs_above a d"
  shows "ref_pink d = Some m \<Longrightarrow> a < m" "ref_green d = Some m \<Longrightarrow> a < m"
    "ref_bomb d = Some m \<Longrightarrow> a < m"
  using assms by (simp_all add: refs_above_def)

lemma detect_colors_post:
  assumes c: "cvlib_contract lib" and a: "frame < length h"
  shows "post frame h (\<lambda>(d', frame', out). frame' = frame) (detect_colors_st lib d h frame)"
  unfolding detect_colors_st_def
  apply (rule then_post[OF set_masks_post[OF c a kept_refl]])
  apply (rule then_post[OF attr_post], assumption)
  apply (rule then_post[OF detect_objects_post[OF c a]], assumption, assumption)
   apply (erule refs_aboveD(1), simp)
  apply (simp split: list.splits)
  apply (intro conjI impI allI)
   apply (rule then_post[OF attr_post], assumption)
   apply (rule then_post[OF detect_objects_post[OF c a]], assumption, assumption)
    apply (erule refs_aboveD(2), simp)
   apply (rule post_return, assumption, simp)
  apply (rule post_return, assumption, simp)
  done

lemma allocates_read_colour:
  assumes "\<And>f h. k h f = (h, Inl CvError) \<or> (\<exists>x. k h f = alloc h x)"
  shows "allocates (\<lambda>h src. read_colour h src (k h))"
  unfolding allocates_def
proof (intro allI)
  fix h src
  show "case read_colour h src (k h) of (h', r) \<Rightarrow>
        take (length h) h' = h \<and>
        (case r of Inl e \<Rightarrow> True | Inr dst \<Rightarrow> length h \<le> dst \<and> dst < length h')"
  proof (cases "src < length h")
    case False
    then show ?thesis by (simp add: read_colour_def)
  next
    case True
    show ?thesis
    proof (cases "h ! src")
      case (Colour f)
      from assms[of h f] True Colour show ?thesis
        by (auto simp: read_colour_def alloc_def)
    next
      case (Grey m)
      with True show ?thesis by (simp add: read_colour_def)
    qed
  qed
qed

lemma allocates_read_grey:
  assumes "\<And>m h. k h m = (h, Inl CvError) \<or> (\<exists>x. k h m = alloc h x)"
  shows "allocates (\<lambda>h src. read_grey h src (k h))"
  unfolding allocates_def
proof (intro allI)
  fix h src
  show "case read_grey h src (k h) of (h', r) \<Rightarrow>
        take (length h) h' = h \<and>
        (case r of Inl e \<Rightarrow> True | Inr dst \<Rightarrow> length h \<le> dst \<and> dst < length h')"
  proof (cases "src < length h")
    case False
    then show ?thesis by (simp add: read_grey_def)
  next
    case True
    show ?thesis
    proof (cases "h ! src")
      case (Grey m)
      from assms[of h m] True Grey show ?thesis
        by (auto simp: read_grey_def alloc_def)
    next
      case (Colour f)
      with True show ?thesis by (simp add: read_grey_def)
    qed
  qed
qed

lemma array_lib_contract: "cvlib_contract (array_lib cv)"
proof -
  have 1: "allocates (lib_cvtColor (array_lib cv))"
  proof -
    have "allocates (\<lambda>h src. read_colour h src ((\<lambda>h f.
         (case cvtColor cv f of Inl e \<Rightarrow> (h, Inl e) | Inr hsv \<Rightarrow> alloc h (Colour hsv))) h))"
      by (rule allocates_read_colour) (auto simp: cvtColor_def)
    then show ?thesis by (simp add: array_lib_def)
  qed
  have 2: "allocates (\<lambda>h src. lib_inRange (array_lib cv) h src lo hi)" for lo hi
  proof -
    have "allocates (\<lambda>h src. read_colour h src ((\<lambda>h hsv. alloc h (Grey (inRange hsv lo hi))) h))"
      by (rule allocates_read_colour) auto
    then show ?thesis by (simp add: array_lib_def)
  qed
  have 3: "allocates (lib_erode (array_lib cv))"
  proof -
    have "allocates (\<lambda>h src. read_grey h src ((\<lambda>h m. alloc h (Grey (erode m))) h))"
      by (rule allocates_read_grey) auto
    then show ?thesis by (simp add: array_lib_def)
  qed
  have 4: "allocates (lib_dilate (array_lib cv))"
  proof -
    have "allocates (\<lambda>h src. read_grey h src ((\<lambda>h m. alloc h (Grey (dilate m))) h))"
      by (rule allocates_read_grey) auto
    then show ?thesis by (simp add: array_lib_def)
  qed
  have 5: "writes_source_only (lib_findContours (array_lib cv))"
    by (auto simp: writes_source_only_def array_lib_def read_grey_def split: ndarray.splits)
  from 1 2 3 4 5 show ?thesis
    unfolding cvlib_contract_def by blast
qed

lemma then_alloc: "then_st (alloc h x) k = k (h @ [x]) (length h)"
  by (simp add: then_st_def alloc_def)

lemma then_attr_Some: "then_st (attr (Some x) h) k = k h x"
  by (simp add: then_st_def attr_def)

lemma then_return: "then_st (h, Inr v) k = k h v"
  by (simp add: then_st_def)

lemma then_error: "then_st (h, Inl e) k = (h, Inl e)"
  by (simp add: then_st_def)

lemma lib_findContours_array:
  assumes "a < length h" "h ! a = Grey m"
  shows "lib_findContours (array_lib cv) h a = (h, Inr (findContours cv m))"
  using assms by (simp add: array_lib_def read_grey_def)

lemma lib_boundingRect_array: "lib_boundingRect (array_lib cv) = boundingRect cv"
  by (simp add: array_lib_def)

lemma bomb_loop_st_array: "bomb_loop_st (array_lib cv) oc cs = bomb_loop cv oc cs"
  by (induction cs) (simp_all add: lib_boundingRect_array)

lemma is_bomb_near_st_array:
  assumes "ref_bomb ob = Some a" "a < length h" "h ! a = Grey mb" "mask_bomb d = Some mb"
  shows "is_bomb_near_st (array_lib cv) ob h x y w ht = (h, is_bomb_near cv d x y w ht)"
  using assms
  by (simp add: is_bomb_near_st_def is_bomb_near_def then_attr_Some
      lib_findContours_array then_return bomb_loop_st_array Let_def)

lemma detect_loop_st_Cons:
  assumes "ref_bomb ob = Some a" "a < length h" "h ! a = Grey mb" "mask_bomb d = Some mb"
    and "obj_start_x ob = start_x d" "obj_start_y ob = start_y d" "obj_height ob = height d"
  shows "detect_loop_st (array_lib cv) ob color_name h (c # cs) acc =
         detect_loop_st (array_lib cv) ob color_name h cs
           (if admitted cv d mb color_name c then acc @ [screen_point d (boundingRect cv c)] else acc)"
proof -
  obtain x y w ht where r: "boundingRect cv c = (x, y, w, ht)"
    by (cases "boundingRect cv c") auto
  have n: "is_bomb_near cv d x y w ht = Inr (hazard cv mb (x, y, w, ht))"
    by (rule is_bomb_near_Some[OF assms(4)])
  show ?thesis
    by (simp add: lib_boundingRect_array r is_bomb_near_st_array[OF assms(1-4)] n
        assms(5-7) admitted_def band_reject_def screen_point_def rect_center_def Let_def)
qed

lemma detect_loop_st_array:
  assumes "ref_bomb ob = Some a" "a < length h" "h ! a = Grey mb" "mask_bomb d = Some mb"
    and "obj_start_x ob = start_x d" "obj_start_y ob = start_y d" "obj_height ob = height d"
  shows "detect_loop_st (array_lib cv) ob color_name h cs acc = (h, detect_loop cv d color_name cs acc)"
proof -
  have "detect_loop_st (array_lib cv) ob color_name h cs acc =
        (h, Inr (acc @ map (\<lambda>c. screen_point d (boundingRect cv c))
                         (filter (admitted cv d mb color_name) cs)))"
  proof (induction cs arbitrary: acc)
    case Nil
    then show ?case by simp
  next
    case (Cons c cs)
    show ?case
      by (simp only: detect_loop_st_Cons[OF assms] Cons.IH) simp
  qed
  then show ?thesis
    by (simp only: detect_loop_eq[OF assms(4)])
qed

lemma detect_objects_st_array:
  assumes "ref_bomb ob = Some a" "a < length h" "h ! a = Grey mb" "mask_bomb d = Some mb"
    and "obj_start_x ob = start_x d" "obj_start_y ob = start_y d" "obj_height ob = height d"
    and "a' < length h" "h ! a' = Grey m"
  shows "detect_objects_st (array_lib cv) ob h a' color_name = (h, detect_objects cv d m color_name)"
  by (simp add: detect_objects_st_def detect_objects_def lib_findContours_array[OF assms(8,9)]
      then_return detect_loop_st_array[OF assms(1-7)])

lemma lib_array_simps:
  "lib_cvtColor (array_lib cv) h a = read_colour h a (\<lambda>f.
         (case cvtColor cv f of Inl e \<Rightarrow> (h, Inl e) | Inr hsv \<Rightarrow> alloc h (Colour hsv)))"
  "lib_inRange (array_lib cv) h a lo hi = read_colour h a (\<lambda>hsv. alloc h (Grey (inRange hsv lo hi)))"
  "lib_erode (array_lib cv) h a = read_grey h a (\<lambda>m. alloc h (Grey (erode m)))"
  "lib_dilate (array_lib cv) h a = read_grey h a (\<lambda>m. alloc h (Grey (dilate m)))"
  by (simp_all add: array_lib_def)

lemma set_masks_st_array:
  assumes "frame < length h" "h ! frame = Colour f" "\<not> frame_empty f"
  shows "set_masks_st (array_lib cv) (obj_of d p g b) h frame =
     (h @ arrays_of cv d f,
      Inr (obj_of d (Some (length h + 5)) (Some (length h + 7)) (Some (length h + 9))))"
  using assms
  by (simp add: set_masks_st_def modify_masks_st_def Let_def lib_array_simps read_colour_def
      read_grey_def cvtColor_def then_alloc then_attr_Some obj_of_def arrays_of_def nth_append)

lemma set_masks_st_array_empty:
  assumes "frame < length h" "h ! frame = Colour f" "frame_empty f"
  shows "set_masks_st (array_lib cv) ob h frame = (h, Inl CvError)"
  using assms
  by (simp add: set_masks_st_def lib_array_simps read_colour_def cvtColor_def then_error)

lemma arrays_of_nth:
  "length (arrays_of cv d f) = 10"
  "(h @ arrays_of cv d f) ! (length h + 5) = Grey (dilate (erode (inRange (map (map (bgr2hsv cv)) f) (lower_pink d) (upper_pink d))))"
  "(h @ arrays_of cv d f) ! (length h + 7) = Grey (dilate (erode (inRange (map (map (bgr2hsv cv)) f) (lower_green d) (upper_green d))))"
  "(h @ arrays_of cv d f) ! (length h + 9) = Grey (dilate (erode (inRange (map (map (bgr2hsv cv)) f) (lower_bomb d) (upper_bomb d))))"
  by (simp_all add: arrays_of_def Let_def nth_append)

lemma obj_of_simps:
  "obj_start_x (obj_of d p g b) = start_x d" "obj_start_y (obj_of d p g b) = start_y d"
  "obj_height (obj_of d p g b) = height d"
  "ref_pink (obj_of d p g b) = p" "ref_green (obj_of d p g b) = g" "ref_bomb (obj_of d p g b) = b"
  by (simp_all add: obj_of_def)

lemma detect_colors_st_array:
  assumes "frame < length h" "h ! frame = Colour f"
  shows "detect_colors_st (array_lib cv) (obj_of d p g b) h frame =
     (case detect_colors cv d f of
        Inl e \<Rightarrow> (h, Inl e)
      | Inr (d1, f1, out) \<Rightarrow>
          (h @ arrays_of cv d f,
           Inr (obj_of d (Some (length h + 5)) (Some (length h + 7)) (Some (length h + 9)),
                frame, out)))"
proof (cases "frame_empty f")
  case True
  then show ?thesis
    by (simp add: detect_colors_empty detect_colors_st_def set_masks_st_array_empty[OF assms]
        then_error)
next
  case False
  let ?d1 = "masks_of cv d f"
  let ?H = "h @ arrays_of cv d f"
  let ?ob = "obj_of d (Some (length h + 5)) (Some (length h + 7)) (Some (length h + 9))"
  obtain mp mg mb where m: "mask_pink ?d1 = Some mp" "mask_green ?d1 = Some mg"
    "mask_bomb ?d1 = Some mb"
    by (simp add: masks_of_simps)
  have H: "?H ! (length h + 5) = Grey mp" "?H ! (length h + 7) = Grey mg"
    "?H ! (length h + 9) = Grey mb"
    using m by (simp_all only: arrays_of_nth masks_of_simps option.inject)
  have len: "length h + 5 < length ?H" "length h + 7 < length ?H" "length h + 9 < length ?H"
    by (simp_all add: arrays_of_nth)
  have cfg: "obj_start_x ?ob = start_x ?d1" "obj_start_y ?ob = start_y ?d1"
    "obj_height ?ob = height ?d1"
    by (simp_all add: obj_of_simps masks_of_simps)
  have rb: "ref_bomb ?ob = Some (length h + 9)"
    by (simp add: obj_of_simps)
  have dobj: "detect_objects_st (array_lib cv) ?ob ?H (length h + 5) color_name =
      (?H, detect_objects cv ?d1 mp color_name)"
    "detect_objects_st (array_lib cv) ?ob ?H (length h + 7) color_name =
      (?H, detect_objects cv ?d1 mg color_name)" for color_name
    by (rule detect_objects_st_array[OF rb len(3) H(3) m(3) cfg len(1) H(1)])
       (rule detect_objects_st_array[OF rb len(3) H(3) m(3) cfg len(2) H(2)])
  let ?pink = "map (\<lambda>c. screen_point ?d1 (boundingRect cv c))
                 (filter (admitted cv ?d1 mb ''pink'') (findContours cv mp))"
  let ?green = "map (\<lambda>c. screen_point ?d1 (boundingRect cv c))
                 (filter (admitted cv ?d1 mb ''green'') (findContours cv mg))"
  have sp: "screen_point ?d1 = screen_point d"
    by (rule ext) (simp add: screen_point_def masks_of_simps)
  have dc: "detect_colors cv d f = Inr (?d1, f, select ?pink ?green)"
    using detect_colors_nonempty[OF False m] by (simp only: sp)
  have st: "detect_colors_st (array_lib cv) (obj_of d p g b) h frame =
      (?H, Inr (?ob, frame, select ?pink ?green))"
    unfolding detect_colors_st_def set_masks_st_array[OF assms False] then_return
    by (simp add: obj_of_simps then_attr_Some dobj detect_objects_eq[OF m(3)] then_return
        select_def split: list.splits)
  show ?thesis
    by (simp only: dc st sum.case prod.case)
qed

lemma init_obj_of: "init_obj sx sy h w = obj_of (init sx sy h w) None None None"
  by (simp add: init_obj_def obj_of_def init_def)

lemma tiny_dark_masks:
  "masks_of tiny_cv (init sx sy h w) [[dark_px]] =
   (init sx sy h w)\<lparr>mask_pink := Some [[0]], mask_green := Some [[0]], mask_bomb := Some [[0]]\<rparr>"
  by (simp add: masks_of_def init_def tiny_cv_simps inRange_def in_band_def dark_px_def
      erode_1x1 dilate_1x1)

lemma detect_colors_tiny_pink:
  "detect_colors tiny_cv (init 10 17 1 1) [[pink_px]] =
     Inr (masks_of tiny_cv (init 10 17 1 1) [[pink_px]], [[pink_px]], Single (10, 20))"
proof -
  let ?d = "init 10 17 1 1"
  have ne: "\<not> frame_empty [[pink_px]]"
    by (simp add: frame_empty_def)
  have o: "start_x ?d = 10" "start_y ?d = 17"
    by (simp_all add: init_def)
  have mp: "mask_pink (masks_of tiny_cv ?d [[pink_px]]) = Some [[255]]"
    "mask_green (masks_of tiny_cv ?d [[pink_px]]) = Some [[0]]"
    "mask_bomb (masks_of tiny_cv ?d [[pink_px]]) = Some [[0]]"
    by (simp_all add: tiny_pink_masks)
  show ?thesis
    by (simp add: detect_colors_nonempty[OF ne mp] tiny_cv_simps admitted_def not_hazard_tiny
        band_reject_def screen_point_def rect_center_def o select_def)
qed

lemma detect_colors_tiny_dark:
  "detect_colors tiny_cv (init 10 17 1 1) [[dark_px]] =
     Inr (masks_of tiny_cv (init 10 17 1 1) [[dark_px]], [[dark_px]], Many [])"
proof -
  let ?d = "init 10 17 1 1"
  have ne: "\<not> frame_empty [[dark_px]]"
    by (simp add: frame_empty_def)
  have md: "mask_pink (masks_of tiny_cv ?d [[dark_px]]) = Some [[0]]"
    "mask_green (masks_of tiny_cv ?d [[dark_px]]) = Some [[0]]"
    "mask_bomb (masks_of tiny_cv ?d [[dark_px]]) = Some [[0]]"
    by (simp_all add: tiny_dark_masks)
  show ?thesis
    by (simp add: detect_colors_nonempty[OF ne md] tiny_cv_simps select_def)
qed

text \<open>
  C10. For every library that keeps the contract above, and every store in which the
  frame is allocated, \<open>detect_colors\<close> leaves the array at the frame's address as it
  was, whether it fails or returns, and when it returns, in either of its two shapes,
  the first component of the result is that address. The library of the first
  sections keeps the contract; with it the method over the store returns what
  \<open>detect_colors\<close> returns on the frame's contents (the same error, or the same
  positions), so on every frame the library accepts it returns the frame's address
  with the frame's contents unchanged.
\<close>

theorem detect_colors_leaves_the_frame:
  assumes "cvlib_contract lib" and "frame < length h"
  shows "(case detect_colors_st lib d h frame of (h', r) \<Rightarrow>
            length h \<le> length h' \<and> h' ! frame = h ! frame \<and>
            (case r of Inl e \<Rightarrow> True | Inr (d', frame', out) \<Rightarrow> frame' = frame))
         \<and> cvlib_contract (array_lib cv)
         \<and> (h ! frame = Colour f \<longrightarrow>
              detect_colors_st (array_lib cv) (obj_of dv p g b) h frame =
                (case detect_colors cv dv f of
                   Inl e \<Rightarrow> (h, Inl e)
                 | Inr (d1, f1, out) \<Rightarrow>
                     (h @ arrays_of cv dv f,
                      Inr (obj_of dv (Some (length h + 5)) (Some (length h + 7))
                             (Some (length h + 9)), frame, out))))
         \<and> (h ! frame = Colour f \<and> \<not> frame_empty f \<longrightarrow>
              (\<exists>h' d' out. detect_colors_st (array_lib cv) (obj_of dv p g b) h frame =
                  (h', Inr (d', frame, out)) \<and> h' ! frame = Colour f))"
proof -
  have 1: "case detect_colors_st lib d h frame of (h', r) \<Rightarrow>
            length h \<le> length h' \<and> h' ! frame = h ! frame \<and>
            (case r of Inl e \<Rightarrow> True | Inr (d', frame', out) \<Rightarrow> frame' = frame)"
    using detect_colors_post[OF assms, of d]
    by (auto simp: post_def kept_def split: prod.splits sum.splits)
  have 3: "detect_colors_st (array_lib cv) (obj_of dv p g b) h frame =
                (case detect_colors cv dv f of
                   Inl e \<Rightarrow> (h, Inl e)
                 | Inr (d1, f1, out) \<Rightarrow>
                     (h @ arrays_of cv dv f,
                      Inr (obj_of dv (Some (length h + 5)) (Some (length h + 7))
                             (Some (length h + 9)), frame, out)))"
    if "h ! frame = Colour f"
    by (rule detect_colors_st_array[OF assms(2) that])
  have 4: "\<exists>h' d' out. detect_colors_st (array_lib cv) (obj_of dv p g b) h frame =
                  (h', Inr (d', frame, out)) \<and> h' ! frame = Colour f"
    if c: "h ! frame = Colour f" and ne: "\<not> frame_empty f"
  proof -
    obtain mp mg mb where m: "mask_pink (masks_of cv dv f) = Some mp"
      "mask_green (masks_of cv dv f) = Some mg" "mask_bomb (masks_of cv dv f) = Some mb"
      by (simp add: masks_of_simps)
    from detect_colors_nonempty[OF ne m] obtain out where
      "detect_colors cv dv f = Inr (masks_of cv dv f, f, out)"
      by blast
    with 3[OF c] have "detect_colors_st (array_lib cv) (obj_of dv p g b) h frame =
        (h @ arrays_of cv dv f,
         Inr (obj_of dv (Some (length h + 5)) (Some (length h + 7)) (Some (length h + 9)),
              frame, out))"
      by simp
    moreover have "(h @ arrays_of cv dv f) ! frame = Colour f"
      using assms(2) c by (simp add: nth_append)
    ultimately show ?thesis by blast
  qed
  from 1 array_lib_contract[of cv] 3 4 show ?thesis
    by blast
qed

theorem detect_colors_leaves_the_frame_witness:
  "cvlib_contract (array_lib tiny_cv) \<and> (0 :: nat) < length [Colour [[pink_px]]] \<and>
   [Colour [[pink_px]]] ! 0 = Colour [[pink_px]] \<and> \<not> frame_empty [[pink_px]] \<and>
   detect_colors_st (array_lib tiny_cv) (init_obj 10 17 1 1) [Colour [[pink_px]]] 0 =
     ([Colour [[pink_px]]] @ arrays_of tiny_cv (init 10 17 1 1) [[pink_px]],
      Inr (obj_of (init 10 17 1 1) (Some 6) (Some 8) (Some 10), 0, Single (10, 20))) \<and>
   ([Colour [[pink_px]]] @ arrays_of tiny_cv (init 10 17 1 1) [[pink_px]]) ! 0 = Colour [[pink_px]] \<and>
   detect_colors_st (array_lib tiny_cv) (init_obj 10 17 1 1) [Colour [[dark_px]]] 0 =
     ([Colour [[dark_px]]] @ arrays_of tiny_cv (init 10 17 1 1) [[dark_px]],
      Inr (obj_of (init 10 17 1 1) (Some 6) (Some 8) (Some 10), 0, Many [])) \<and>
   ([Colour [[dark_px]]] @ arrays_of tiny_cv (init 10 17 1 1) [[dark_px]]) ! 0 = Colour [[dark_px]]"
proof -
  have c: "cvlib_contract (array_lib tiny_cv)"
    by (rule array_lib_contract)
  have l: "(0 :: nat) < length [Colour [[pink_px]]]" "(0 :: nat) < length [Colour [[dark_px]]]"
    by simp_all
  have ne: "\<not> frame_empty [[pink_px]]"
    by (simp add: frame_empty_def)
  note t1 = detect_colors_leaves_the_frame[OF c l(1), where cv = tiny_cv and f = "[[pink_px]]"
      and dv = "init 10 17 1 1" and p = None and g = None and b = None]
  note t2 = detect_colors_leaves_the_frame[OF c l(2), where cv = tiny_cv and f = "[[dark_px]]"
      and dv = "init 10 17 1 1" and p = None and g = None and b = None]
  from t1 have 1: "detect_colors_st (array_lib tiny_cv) (init_obj 10 17 1 1) [Colour [[pink_px]]] 0 =
     ([Colour [[pink_px]]] @ arrays_of tiny_cv (init 10 17 1 1) [[pink_px]],
      Inr (obj_of (init 10 17 1 1) (Some 6) (Some 8) (Some 10), 0, Single (10, 20)))"
    by (simp add: init_obj_of detect_colors_tiny_pink)
  from t2 have 2: "detect_colors_st (array_lib tiny_cv) (init_obj 10 17 1 1) [Colour [[dark_px]]] 0 =
     ([Colour [[dark_px]]] @ arrays_of tiny_cv (init 10 17 1 1) [[dark_px]],
      Inr (obj_of (init 10 17 1 1) (Some 6) (Some 8) (Some 10), 0, Many []))"
    by (simp add: init_obj_of detect_colors_tiny_dark)
  from c ne 1 2 show ?thesis
    by simp
qed

text \<open>
  The contract is needed: with a conversion that writes its result into its source,
  the cycle overwrites the frame.
\<close>

lemma inplace_conversion_overwrites_the_frame:
  "fst (detect_colors_st (inplace_lib dark_cv) (init_obj 0 0 1 1) [Colour [[pink_px]]] 0) ! 0
     = Colour [[dark_px]]
   \<and> Colour [[dark_px]] \<noteq> Colour [[pink_px]]
   \<and> \<not> cvlib_contract (inplace_lib dark_cv)"
proof -
  have e: "fst (detect_colors_st (inplace_lib dark_cv) (init_obj 0 0 1 1) [Colour [[pink_px]]] 0) ! 0
     = Colour [[dark_px]]"
    by (simp add: detect_colors_st_def set_masks_st_def modify_masks_st_def detect_objects_st_def
        inplace_lib_def array_lib_def dark_cv_def tiny_cv_def box_cv_def init_obj_def
        read_colour_def read_grey_def alloc_def then_st_def attr_def cvtColor_def frame_empty_def
        inRange_def in_band_def dark_px_def erode_1x1 dilate_1x1 Let_def)
  have n: "Colour [[dark_px]] \<noteq> Colour [[pink_px]]"
    by (simp add: dark_px_def pink_px_def)
  have "\<not> cvlib_contract (inplace_lib dark_cv)"
  proof
    assume "cvlib_contract (inplace_lib dark_cv)"
    from detect_colors_post[OF this, of 0 "[Colour [[pink_px]]]" "init_obj 0 0 1 1"]
    have "fst (detect_colors_st (inplace_lib dark_cv) (init_obj 0 0 1 1) [Colour [[pink_px]]] 0) ! 0
        = Colour [[pink_px]]"
      by (auto simp: post_def kept_def split: prod.splits)
    with e n show False by simp
  qed
  with e n show ?thesis by simp
qed

end
